theory Spec2Isabelle
  imports Complex_Main
begin

section \<open>Strings and the supported tickers\<close>

text \<open>
  Strings are lists of 8-bit characters; the request tickers, the room names and the
  supported symbols are ASCII. Times are milliseconds since the epoch, as \<open>Date.now()\<close>
  returns them.
\<close>

definition SUPPORTED_STOCKS :: "string list" where
  "SUPPORTED_STOCKS = [''AAPL'', ''GOOG'', ''TSLA'', ''AMZN'', ''META'', ''NVDA'', ''MSFT'']"

text \<open>
  \<open>String.prototype.trim\<close> strips white space at both ends (here: tab, line feed,
  vertical tab, form feed, carriage return, space) and \<open>toUpperCase\<close> maps the letters
  \<open>a..z\<close> to \<open>A..Z\<close>.
\<close>

definition isWhiteSpace :: "char \<Rightarrow> bool" where
  "isWhiteSpace c = (c \<in> set [CHR 0x09, CHR 0x0A, CHR 0x0B, CHR 0x0C, CHR 0x0D, CHR '' ''])"

definition trim :: "string \<Rightarrow> string" where
  "trim s = rev (dropWhile isWhiteSpace (rev (dropWhile isWhiteSpace s)))"

definition upperChar :: "char \<Rightarrow> char" where
  "upperChar c =
     (let n = (of_char c :: nat)
      in if 97 \<le> n \<and> n \<le> 122 then char_of (n - 32) else c)"

definition toUpperCase :: "string \<Rightarrow> string" where
  "toUpperCase s = map upperChar s"

text \<open>
  \<open>String(ticker || '').trim().toUpperCase()\<close>, for a body field that is a string or is
  missing (\<open>None\<close>).
\<close>

definition normalizeTicker :: "string option \<Rightarrow> string" where
  "normalizeTicker ticker =
     toUpperCase (trim (case ticker of None \<Rightarrow> [] | Some t \<Rightarrow> t))"

section \<open>Tokens (jsonwebtoken and crypto, as the controllers use them)\<close>

text \<open>
  A JSON value of a token payload field, with JavaScript's truthiness.
\<close>

datatype jsval = JNull | JBool bool | JNum rat | JStr string

fun truthy :: "jsval \<Rightarrow> bool" where
  "truthy JNull = False"
| "truthy (JBool b) = b"
| "truthy (JNum n) = (n \<noteq> 0)"
| "truthy (JStr s) = (s \<noteq> [])"

text \<open>
  The decoded payload: \<open>id\<close>, the optional \<open>type\<close> discriminator, and the \<open>iat\<close> and
  \<open>exp\<close> claims, which jsonwebtoken counts in whole seconds.
\<close>

record jwt_payload =
  tok_id :: string
  tok_type :: "jsval option"
  tok_iat :: int
  tok_exp :: int

text \<open>
  A token is symbolic: a payload signed (HS256, no \<open>jti\<close>) with a secret, or a string
  that is no JWT. Signing is deterministic, so two tokens are the same string exactly when
  payload and secret agree. \<open>Sha256\<close> stands for the hex digest of the token string.
\<close>

datatype token = Jwt jwt_payload string | Opaque string

datatype digest = Sha256 token

datatype jwt_error = TokenExpiredError | JsonWebTokenError

text \<open>\<open>jwt.sign({id, type}, secret, {expiresIn})\<close> at clock \<open>now\<close> (milliseconds).\<close>

definition jwt_sign :: "string \<Rightarrow> string \<Rightarrow> string \<Rightarrow> int \<Rightarrow> int \<Rightarrow> token" where
  "jwt_sign userId typ secret ttl now =
     Jwt \<lparr>tok_id = userId, tok_type = Some (JStr typ),
          tok_iat = now div 1000, tok_exp = now div 1000 + ttl\<rparr> secret"

text \<open>
  \<open>jwt.verify(token, secret)\<close>: a missing secret, a malformed token or a wrong signature
  raise \<open>JsonWebTokenError\<close>; then an elapsed \<open>exp\<close> raises \<open>TokenExpiredError\<close>.
\<close>

definition jwt_verify :: "token \<Rightarrow> string option \<Rightarrow> int \<Rightarrow> jwt_error + jwt_payload" where
  "jwt_verify tok secret now =
     (case secret of
        None \<Rightarrow> Inl JsonWebTokenError
      | Some k \<Rightarrow>
          (case tok of
             Opaque _ \<Rightarrow> Inl JsonWebTokenError
           | Jwt p signer \<Rightarrow>
               if signer \<noteq> k then Inl JsonWebTokenError
               else if now div 1000 \<ge> tok_exp p then Inl TokenExpiredError
               else Inr p))"

text \<open>
  \<open>!token\<close>: a missing token and the empty string are falsy; \<open>givenToken\<close> keeps a
  truthy token.
\<close>

fun givenToken :: "token option \<Rightarrow> token option" where
  "givenToken None = None"
| "givenToken (Some (Opaque s)) = (if s = [] then None else Some (Opaque s))"
| "givenToken (Some (Jwt p k)) = Some (Jwt p k)"

text \<open>
  The environment: an unset or empty variable is \<open>None\<close>.
\<close>

record env =
  JWT_SECRET :: "string option"
  JWT_REFRESH_SECRET :: "string option"

definition refreshSecret :: "env \<Rightarrow> string option" where
  "refreshSecret e = (case JWT_REFRESH_SECRET e of Some k \<Rightarrow> Some k | None \<Rightarrow> JWT_SECRET e)"

text \<open>Both generators throw when their secret is missing (\<open>None\<close>).\<close>

definition generateAccessToken :: "env \<Rightarrow> int \<Rightarrow> string \<Rightarrow> token option" where
  "generateAccessToken e now userId =
     (case JWT_SECRET e of
        None \<Rightarrow> None
      | Some k \<Rightarrow> Some (jwt_sign userId ''access'' k (15 * 60) now))"

definition generateRefreshToken :: "env \<Rightarrow> int \<Rightarrow> string \<Rightarrow> token option" where
  "generateRefreshToken e now userId =
     (case refreshSecret e of
        None \<Rightarrow> None
      | Some k \<Rightarrow> Some (jwt_sign userId ''refresh'' k (7 * 24 * 60 * 60) now))"

section \<open>The user model (models/User.js)\<close>

text \<open>
  The user document of models/User.js. \<open>password\<close> holds the stored bcrypt hash,
  \<open>refreshToken\<close> the stored digest; optional fields are \<open>None\<close> when null or unset.
\<close>

record user =
  uid :: string
  name :: string
  email :: string
  password :: string
  subscribedStocks :: "string list"
  refreshToken :: "digest option"
  refreshTokenExpiry :: "int option"
  lastLogin :: "int option"
  loginAttempts :: int
  lockUntil :: "int option"
  passwordChangedAt :: "int option"
  isActive :: bool

text \<open>The collection is a list of documents; \<open>findById\<close> returns the first with that id.\<close>

definition findById :: "user list \<Rightarrow> string \<Rightarrow> user option" where
  "findById db i = find (\<lambda>u. uid u = i) db"

definition updateById :: "string \<Rightarrow> (user \<Rightarrow> user) \<Rightarrow> user list \<Rightarrow> user list" where
  "updateById i f db = map (\<lambda>u. if uid u = i then f u else u) db"

section \<open>Subscription store accessor (controllers/stockController.js)\<close>

datatype stock_response =
    StockOk "string list"          \<comment> \<open>200, \<open>data: user.subscribedStocks\<close>\<close>
  | InvalidTicker                  \<comment> \<open>400 \<open>Invalid stock ticker\<close>\<close>
  | AlreadySubscribed string       \<comment> \<open>400 \<open>Already subscribed to ...\<close>\<close>
  | NotSubscribed string           \<comment> \<open>400 \<open>Not subscribed to ...\<close>\<close>
  | StockServerError               \<comment> \<open>500, the \<open>catch\<close> branch\<close>

fun stockStatus :: "stock_response \<Rightarrow> nat" where
  "stockStatus (StockOk _) = 200"
| "stockStatus InvalidTicker = 400"
| "stockStatus (AlreadySubscribed _) = 400"
| "stockStatus (NotSubscribed _) = 400"
| "stockStatus StockServerError = 500"

text \<open>
  \<open>user.save()\<close> validates the modified \<open>subscribedStocks\<close> path against the schema's
  \<open>enum\<close>; a failed validation throws and the handler answers 500 without writing.
\<close>

definition stocksValid :: "string list \<Rightarrow> bool" where
  "stocksValid xs = list_all (\<lambda>s. s \<in> set SUPPORTED_STOCKS) xs"

definition saveStocks ::
  "string \<Rightarrow> string list \<Rightarrow> user list \<Rightarrow> stock_response \<times> user list" where
  "saveStocks i xs db =
     (if stocksValid xs
      then (StockOk xs, updateById i (\<lambda>u. u\<lparr>subscribedStocks := xs\<rparr>) db)
      else (StockServerError, db))"

definition subscribeStock ::
  "string option \<Rightarrow> string \<Rightarrow> user list \<Rightarrow> stock_response \<times> user list" where
  "subscribeStock ticker i db =
     (let normalizedTicker = normalizeTicker ticker in
      if normalizedTicker = [] \<or> normalizedTicker \<notin> set SUPPORTED_STOCKS
      then (InvalidTicker, db)
      else (case findById db i of
              None \<Rightarrow> (StockServerError, db)
            | Some u \<Rightarrow>
                if normalizedTicker \<in> set (subscribedStocks u)
                then (AlreadySubscribed normalizedTicker, db)
                else saveStocks i (subscribedStocks u @ [normalizedTicker]) db))"

definition unsubscribeStock ::
  "string option \<Rightarrow> string \<Rightarrow> user list \<Rightarrow> stock_response \<times> user list" where
  "unsubscribeStock ticker i db =
     (let normalizedTicker = normalizeTicker ticker in
      if normalizedTicker = [] \<or> normalizedTicker \<notin> set SUPPORTED_STOCKS
      then (InvalidTicker, db)
      else (case findById db i of
              None \<Rightarrow> (StockServerError, db)
            | Some u \<Rightarrow>
                if normalizedTicker \<notin> set (subscribedStocks u)
                then (NotSubscribed normalizedTicker, db)
                else saveStocks i (filter (\<lambda>s. s \<noteq> normalizedTicker) (subscribedStocks u)) db))"

text \<open>The list the store holds for a user (\<open>[]\<close> stands in when the user is absent).\<close>

definition storedStocks :: "user list \<Rightarrow> string \<Rightarrow> string list" where
  "storedStocks db i = (case findById db i of None \<Rightarrow> [] | Some u \<Rightarrow> subscribedStocks u)"

section \<open>Account lockout (models/User.js)\<close>

definition toLowerCase :: "string \<Rightarrow> string" where
  "toLowerCase s =
     map (\<lambda>c. let n = (of_char c :: nat) in if 65 \<le> n \<and> n \<le> 90 then char_of (n + 32) else c) s"

text \<open>
  \<open>User.findOne({ email })\<close>: the filter is cast by the schema, whose \<open>lowercase\<close> and
  \<open>trim\<close> setters apply to it.
\<close>

definition findOneByEmail :: "user list \<Rightarrow> string \<Rightarrow> user option" where
  "findOneByEmail db e = find (\<lambda>u. email u = toLowerCase (trim e)) db"

definition isLocked :: "user \<Rightarrow> int \<Rightarrow> bool" where
  "isLocked u now = (case lockUntil u of None \<Rightarrow> False | Some l \<Rightarrow> l > now)"

text \<open>
  \<open>incLoginAttempts\<close> reads \<open>this\<close> (the loaded document \<open>u\<close>) and writes the store with
  \<open>updateOne\<close>: \<open>$set\<close>/\<open>$unset\<close> when an earlier lock has expired, \<open>$inc\<close> (and \<open>$set\<close>
  of the lock) otherwise.
\<close>

definition incLoginAttempts :: "user \<Rightarrow> int \<Rightarrow> user list \<Rightarrow> user list" where
  "incLoginAttempts u now db =
     (if (case lockUntil u of None \<Rightarrow> False | Some l \<Rightarrow> l < now)
      then updateById (uid u) (\<lambda>d. d\<lparr>loginAttempts := 1, lockUntil := None\<rparr>) db
      else if loginAttempts u + 1 \<ge> 5
      then updateById (uid u)
             (\<lambda>d. d\<lparr>loginAttempts := loginAttempts d + 1,
                    lockUntil := Some (now + 2 * 60 * 60 * 1000)\<rparr>) db
      else updateById (uid u) (\<lambda>d. d\<lparr>loginAttempts := loginAttempts d + 1\<rparr>) db)"

definition resetLoginAttempts :: "user \<Rightarrow> int \<Rightarrow> user list \<Rightarrow> user list" where
  "resetLoginAttempts u now db =
     updateById (uid u) (\<lambda>d. d\<lparr>loginAttempts := 0, lastLogin := Some now, lockUntil := None\<rparr>) db"

definition changedPasswordAfter :: "user \<Rightarrow> int \<Rightarrow> bool" where
  "changedPasswordAfter u JWTTimestamp =
     (case passwordChangedAt u of
        None \<Rightarrow> False
      | Some changed \<Rightarrow> JWTTimestamp < changed div 1000)"

section \<open>Credential and token service (controllers/authController.js)\<close>

record login_body =
  body_email :: "string option"
  body_password :: "string option"
  rememberMe :: bool

record login_user =
  lu_id :: string
  lu_name :: string
  lu_email :: string
  lu_subscribedStocks :: "string list"
  lu_lastLogin :: "int option"

datatype login_response =
    LoginMissingFields             \<comment> \<open>400 \<open>Please provide email and password\<close>\<close>
  | LoginInvalid                   \<comment> \<open>401 \<open>Invalid email or password\<close>\<close>
  | LoginDeactivated               \<comment> \<open>401 \<open>Account has been deactivated\<close>\<close>
  | LoginLocked int                \<comment> \<open>423, the minutes remaining\<close>
  | LoginOk token "token option" login_user
                                   \<comment> \<open>200: access token, refresh token of the body, user\<close>
  | LoginServerError               \<comment> \<open>500, the \<open>catch\<close> branch\<close>

fun loginStatus :: "login_response \<Rightarrow> nat" where
  "loginStatus LoginMissingFields = 400"
| "loginStatus LoginInvalid = 401"
| "loginStatus LoginDeactivated = 401"
| "loginStatus (LoginLocked _) = 423"
| "loginStatus (LoginOk _ _ _) = 200"
| "loginStatus LoginServerError = 500"

text \<open>
  \<open>Math.ceil((user.lockUntil - Date.now()) / (60 * 1000))\<close>; it is computed for a locked
  account only, whose \<open>lockUntil\<close> is set.
\<close>

definition lockTimeRemaining :: "user \<Rightarrow> int \<Rightarrow> int" where
  "lockTimeRemaining u now =
     (case lockUntil u of
        None \<Rightarrow> 0
      | Some l \<Rightarrow> \<lceil>rat_of_int (l - now) / (60 * 1000)\<rceil>)"

text \<open>
  \<open>login\<close>. \<open>compare\<close> is \<open>bcrypt.compare(candidate, storedHash)\<close>; \<open>now\<close> is the clock
  of the request. The document \<open>u\<close> is the one loaded by \<open>findOne\<close>: \<open>updateOne\<close> writes the
  store and leaves it as loaded, and the final \<open>save\<close> writes the two modified paths.
\<close>

definition login ::
  "env \<Rightarrow> int \<Rightarrow> (string \<Rightarrow> string \<Rightarrow> bool) \<Rightarrow> login_body \<Rightarrow> user list
     \<Rightarrow> login_response \<times> user list" where
  "login e now compare body db =
     (case (body_email body, body_password body) of
        (Some em, Some pw) \<Rightarrow>
          if em = [] \<or> pw = [] then (LoginMissingFields, db)
          else (case findOneByEmail db em of
                  None \<Rightarrow> (LoginInvalid, db)
                | Some u \<Rightarrow>
                    if \<not> isActive u then (LoginDeactivated, db)
                    else if isLocked u now
                    then (LoginLocked (lockTimeRemaining u now), db)
                    else if \<not> compare pw (password u)
                    then (LoginInvalid, incLoginAttempts u now db)
                    else
                      (let db1 = resetLoginAttempts u now db in
                       case (generateAccessToken e now (uid u),
                             generateRefreshToken e now (uid u)) of
                         (Some accessToken, Some refreshTok) \<Rightarrow>
                           (LoginOk accessToken
                              (if rememberMe body then Some refreshTok else None)
                              \<lparr>lu_id = uid u, lu_name = name u, lu_email = email u,
                               lu_subscribedStocks = subscribedStocks u,
                               lu_lastLogin = lastLogin u\<rparr>,
                            updateById (uid u)
                              (\<lambda>d. d\<lparr>refreshToken := Some (Sha256 refreshTok),
                                     refreshTokenExpiry :=
                                       Some (now + 7 * 24 * 60 * 60 * 1000)\<rparr>) db1)
                       | _ \<Rightarrow> (LoginServerError, db1)))
      | _ \<Rightarrow> (LoginMissingFields, db))"

datatype refresh_response =
    RefreshMissing                 \<comment> \<open>401 \<open>Refresh token not provided\<close>\<close>
  | RefreshInvalid                 \<comment> \<open>401 \<open>Invalid or expired refresh token\<close>\<close>
  | RefreshNoMatch                 \<comment> \<open>401 \<open>Invalid refresh token or token expired\<close>\<close>
  | RefreshOk token token          \<comment> \<open>200: new access token, new refresh token\<close>
  | RefreshServerError             \<comment> \<open>500\<close>

fun refreshStatus :: "refresh_response \<Rightarrow> nat" where
  "refreshStatus RefreshMissing = 401"
| "refreshStatus RefreshInvalid = 401"
| "refreshStatus RefreshNoMatch = 401"
| "refreshStatus (RefreshOk _ _) = 200"
| "refreshStatus RefreshServerError = 500"

text \<open>
  \<open>refreshToken\<close>: the token comes from the cookie or, failing that, from the body.
  The store is searched for the decoded id with this digest and an expiry in the future.
\<close>

definition findRefreshUser :: "user list \<Rightarrow> string \<Rightarrow> digest \<Rightarrow> int \<Rightarrow> user option" where
  "findRefreshUser db i h now =
     find (\<lambda>u. uid u = i \<and> refreshToken u = Some h
               \<and> (case refreshTokenExpiry u of None \<Rightarrow> False | Some x \<Rightarrow> x > now)) db"

definition refresh ::
  "env \<Rightarrow> int \<Rightarrow> token option \<Rightarrow> token option \<Rightarrow> user list \<Rightarrow> refresh_response \<times> user list" where
  "refresh e now cookie bodyTok db =
     (case (case givenToken cookie of Some t \<Rightarrow> Some t | None \<Rightarrow> givenToken bodyTok) of
        None \<Rightarrow> (RefreshMissing, db)
      | Some tok \<Rightarrow>
        (case jwt_verify tok (refreshSecret e) now of
           Inl _ \<Rightarrow> (RefreshInvalid, db)
         | Inr decoded \<Rightarrow>
             (case findRefreshUser db (tok_id decoded) (Sha256 tok) now of
                None \<Rightarrow> (RefreshNoMatch, db)
              | Some u \<Rightarrow>
                  (case (generateAccessToken e now (uid u),
                         generateRefreshToken e now (uid u)) of
                     (Some newAccessToken, Some newRefreshToken) \<Rightarrow>
                       (RefreshOk newAccessToken newRefreshToken,
                        updateById (uid u)
                          (\<lambda>d. d\<lparr>refreshToken := Some (Sha256 newRefreshToken),
                                 refreshTokenExpiry :=
                                   Some (now + 7 * 24 * 60 * 60 * 1000)\<rparr>) db)
                   | _ \<Rightarrow> (RefreshServerError, db)))))"

record register_body =
  reg_name :: "string option"
  reg_email :: "string option"
  reg_password :: "string option"

datatype register_response =
    RegMissingFields               \<comment> \<open>400 \<open>Please provide name, email and password\<close>\<close>
  | RegWeakPassword                \<comment> \<open>400 \<open>Password must be at least 6 characters\<close>\<close>
  | RegEmailTaken                  \<comment> \<open>400 \<open>User with this email already exists\<close>\<close>
  | RegCreated string string string  \<comment> \<open>201: id, name, email\<close>
  | RegServerError                 \<comment> \<open>500, the \<open>catch\<close> branch, with \<open>error.message\<close>\<close>

fun registerStatus :: "register_response \<Rightarrow> nat" where
  "registerStatus RegMissingFields = 400"
| "registerStatus RegWeakPassword = 400"
| "registerStatus RegEmailTaken = 400"
| "registerStatus (RegCreated _ _ _) = 201"
| "registerStatus RegServerError = 500"

text \<open>
  The schema validation \<open>User.create\<close> runs before it writes, on the values after the
  setters (\<open>trim\<close>, \<open>lowercase\<close>): name of 2 to 50 characters, email matching the schema's
  pattern (\<open>emailMatches\<close>), password of at least 6 characters. A failure throws.
\<close>

definition validateUser :: "(string \<Rightarrow> bool) \<Rightarrow> string \<Rightarrow> string \<Rightarrow> string \<Rightarrow> bool" where
  "validateUser emailMatches nm em pw =
     (2 \<le> length (trim nm) \<and> length (trim nm) \<le> 50
      \<and> toLowerCase (trim em) \<noteq> [] \<and> emailMatches (toLowerCase (trim em))
      \<and> 6 \<le> length pw)"

text \<open>
  \<open>register\<close>. \<open>hash\<close> is the bcrypt hash of the pre-save hook, \<open>newId\<close> the id the
  store gives the new document.
\<close>

definition register ::
  "(string \<Rightarrow> bool) \<Rightarrow> (string \<Rightarrow> string) \<Rightarrow> string \<Rightarrow> register_body \<Rightarrow> user list
     \<Rightarrow> register_response \<times> user list" where
  "register emailMatches hash newId body db =
     (case (reg_name body, reg_email body, reg_password body) of
        (Some nm, Some em, Some pw) \<Rightarrow>
          if nm = [] \<or> em = [] \<or> pw = [] then (RegMissingFields, db)
          else if length pw < 6 then (RegWeakPassword, db)
          else (case findOneByEmail db em of
                  Some _ \<Rightarrow> (RegEmailTaken, db)
                | None \<Rightarrow>
                    if \<not> validateUser emailMatches nm em pw then (RegServerError, db)
                    else
                      (RegCreated newId (trim nm) (toLowerCase (trim em)),
                       db @ [\<lparr>uid = newId, name = trim nm, email = toLowerCase (trim em),
                              password = hash pw, subscribedStocks = [],
                              refreshToken = None, refreshTokenExpiry = None,
                              lastLogin = None, loginAttempts = 0, lockUntil = None,
                              passwordChangedAt = None, isActive = True\<rparr>]))
      | _ \<Rightarrow> (RegMissingFields, db))"

text \<open>
  The account that a password-mismatch login leaves behind, and runs of logins: the
  vocabulary of the lockout properties. \<open>wrongPassword\<close> says that a request names the
  account's email and carries a password that does not match.
\<close>

definition afterMismatch :: "user \<Rightarrow> int \<Rightarrow> user" where
  "afterMismatch u now =
     (if (case lockUntil u of None \<Rightarrow> False | Some l \<Rightarrow> l < now)
      then u\<lparr>loginAttempts := 1, lockUntil := None\<rparr>
      else if loginAttempts u + 1 \<ge> 5
      then u\<lparr>loginAttempts := loginAttempts u + 1, lockUntil := Some (now + 7200000)\<rparr>
      else u\<lparr>loginAttempts := loginAttempts u + 1\<rparr>)"

definition wrongPassword :: "(string \<Rightarrow> string \<Rightarrow> bool) \<Rightarrow> string \<Rightarrow> user \<Rightarrow> login_body \<Rightarrow> bool" where
  "wrongPassword compare em u body =
     (em \<noteq> [] \<and> body_email body = Some em
      \<and> (case body_password body of
            None \<Rightarrow> False
          | Some pw \<Rightarrow> pw \<noteq> [] \<and> \<not> compare pw (password u)))"

fun loginAll ::
  "env \<Rightarrow> (string \<Rightarrow> string \<Rightarrow> bool) \<Rightarrow> (int \<times> login_body) list \<Rightarrow> user list \<Rightarrow> user list" where
  "loginAll e compare [] db = db"
| "loginAll e compare ((now, body) # rest) db =
     loginAll e compare rest (snd (login e now compare body db))"

section \<open>The protect middleware (utils/authMiddleware.js) and the socket handshake\<close>

datatype protect_result =
    Next_user user                 \<comment> \<open>\<open>req.user = user; next()\<close>\<close>
  | Unauthorized string            \<comment> \<open>401 with the machine-readable \<open>code\<close>\<close>
  | ConfigError                    \<comment> \<open>500 \<open>Server configuration error\<close>\<close>

text \<open>
  \<open>protect\<close>, given the token taken from the \<open>Authorization: Bearer\<close> header
  (\<open>None\<close> when the header is missing, is not a Bearer header or has no second field).
  The last answer of the source, \<open>TOKEN_ERROR\<close>, is for any other exception inside the
  inner \<open>try\<close>; the model raises none.
\<close>

definition protect :: "env \<Rightarrow> int \<Rightarrow> token option \<Rightarrow> user list \<Rightarrow> protect_result" where
  "protect e now bearer db =
     (case givenToken bearer of
        None \<Rightarrow> Unauthorized ''NO_TOKEN''
      | Some tok \<Rightarrow>
        (case JWT_SECRET e of
           None \<Rightarrow> ConfigError
         | Some k \<Rightarrow>
             (case jwt_verify tok (Some k) now of
                Inl TokenExpiredError \<Rightarrow> Unauthorized ''TOKEN_EXPIRED''
              | Inl JsonWebTokenError \<Rightarrow> Unauthorized ''INVALID_TOKEN''
              | Inr decoded \<Rightarrow>
                  if (case tok_type decoded of
                        None \<Rightarrow> False
                      | Some t \<Rightarrow> truthy t \<and> t \<noteq> JStr ''access'')
                  then Unauthorized ''INVALID_TOKEN_TYPE''
                  else
                    (case findById db (tok_id decoded) of
                       None \<Rightarrow> Unauthorized ''USER_NOT_FOUND''
                     | Some u \<Rightarrow>
                         if \<not> isActive u then Unauthorized ''ACCOUNT_DEACTIVATED''
                         else if changedPasswordAfter u (tok_iat decoded)
                         then Unauthorized ''PASSWORD_CHANGED''
                         else Next_user u))))"

datatype handshake_result =
    Admitted user                  \<comment> \<open>\<open>socket.user = user; next()\<close>\<close>
  | ConnectError string            \<comment> \<open>\<open>next(new Error(...))\<close>: the connection is refused\<close>

text \<open>The \<open>io.use\<close> middleware of sockets/stockSocket.js, on \<open>socket.handshake.auth.token\<close>.\<close>

definition socketAuth :: "env \<Rightarrow> int \<Rightarrow> token option \<Rightarrow> user list \<Rightarrow> handshake_result" where
  "socketAuth e now tok db =
     (case givenToken tok of
        None \<Rightarrow> ConnectError ''Authentication required''
      | Some t \<Rightarrow>
        (case jwt_verify t (JWT_SECRET e) now of
           Inl _ \<Rightarrow> ConnectError ''Authentication failed''
         | Inr decoded \<Rightarrow>
             (case findById db (tok_id decoded) of
                None \<Rightarrow> ConnectError ''User not found''
              | Some u \<Rightarrow> Admitted u)))"

section \<open>Live channel membership (sockets/stockSocket.js)\<close>

definition getTickerRoom :: "string \<Rightarrow> string" where
  "getTickerRoom ticker = ''ticker:'' @ ticker"

definition startsWith :: "string \<Rightarrow> string \<Rightarrow> bool" where
  "startsWith s p = (take (length p) s = p)"

text \<open>
  \<open>socket.rooms\<close> and the two local sets are JavaScript \<open>Set\<close>s: lists in insertion
  order without repetition. \<open>add\<close> of a member changes nothing, \<open>delete\<close> removes the
  member; \<open>socket.join\<close> and \<open>socket.leave\<close> are \<open>add\<close> and \<open>delete\<close> on \<open>socket.rooms\<close>.
\<close>

definition setAdd :: "'a \<Rightarrow> 'a list \<Rightarrow> 'a list" where
  "setAdd x s = (if x \<in> set s then s else s @ [x])"

definition setDelete :: "'a \<Rightarrow> 'a list \<Rightarrow> 'a list" where
  "setDelete x s = filter (\<lambda>y. y \<noteq> x) s"

definition newSet :: "'a list \<Rightarrow> 'a list" where
  "newSet xs = fold setAdd xs []"

definition getSocketTickerRooms :: "string list \<Rightarrow> string list" where
  "getSocketTickerRooms rooms = filter (\<lambda>r. startsWith r ''ticker:'') rooms"

text \<open>
  \<open>syncTickerRooms(socket, subscribedTickers)\<close>, on the rooms of the socket;
  a null list (\<open>None\<close>) counts as empty.
\<close>

definition syncTickerRooms :: "string list \<Rightarrow> string list option \<Rightarrow> string list" where
  "syncTickerRooms rooms subscribedTickers =
     (let desired = newSet (map getTickerRoom (case subscribedTickers of None \<Rightarrow> [] | Some ts \<Rightarrow> ts));
          current = newSet (getSocketTickerRooms rooms);
          left = fold (\<lambda>room rs. if room \<notin> set desired then setDelete room rs else rs)
                   current rooms
      in fold (\<lambda>room rs. if room \<notin> set current then setAdd room rs else rs) desired left)"

text \<open>
  The ticker channels that a subscription list stands for: what a reconciliation is
  measured against.
\<close>

definition desiredRooms :: "string list option \<Rightarrow> string set" where
  "desiredRooms subs = getTickerRoom ` set (case subs of None \<Rightarrow> [] | Some ts \<Rightarrow> ts)"

section \<open>Price simulation engine and broadcast scheduler (sockets/stockSocket.js)\<close>

text \<open>
  Prices are JavaScript numbers; the model computes with exact rationals. One tick draws
  one \<open>Math.random()\<close> per ticker: \<open>rnd t\<close> is the draw used for ticker \<open>t\<close>.
\<close>

definition basePrices :: "string \<rightharpoonup> rat" where
  "basePrices = map_of
     [(''AAPL'', 19342 / 100), (''GOOG'', 19141 / 100), (''TSLA'', 38922 / 100),
      (''AMZN'', 18050 / 100), (''META'', 59155 / 100), (''NVDA'', 13825 / 100),
      (''MSFT'', 44839 / 100)]"

record price_state =
  stockPrices :: "string \<rightharpoonup> rat"
  priceHistory :: "string \<rightharpoonup> rat list"

text \<open>The module state at load: the seed prices, and a one-point history per ticker.\<close>

definition seedState :: price_state where
  "seedState =
     \<lparr>stockPrices = basePrices,
      priceHistory = (\<lambda>t. if t \<in> set SUPPORTED_STOCKS
                          then map_option (\<lambda>p. [p]) (basePrices t) else None)\<rparr>"

text \<open>\<open>Number(x.toFixed(2))\<close>: the nearest multiple of 0.01, a tie going away from zero.\<close>

definition toFixed2 :: "rat \<Rightarrow> rat" where
  "toFixed2 x =
     (if x < 0 then - (of_int (round (- x * 100)) / 100) else of_int (round (x * 100)) / 100)"

definition generatePrice :: "rat \<Rightarrow> rat \<Rightarrow> rat" where
  "generatePrice random currentPrice =
     (let change = (random - 1 / 2) * 4
      in max 1 (toFixed2 (currentPrice + change)))"

text \<open>
  A key that an object does not hold reads \<open>undefined\<close>; the functions below then return
  \<open>None\<close>, where the source would compute \<open>NaN\<close> or throw.
\<close>

definition calculateChange :: "price_state \<Rightarrow> string \<Rightarrow> rat option" where
  "calculateChange st ticker =
     (case (basePrices ticker, stockPrices st ticker) of
        (Some base, Some current) \<Rightarrow> Some (toFixed2 (((current - base) / base) * 100))
      | _ \<Rightarrow> None)"

record stock_entry =
  price :: rat
  change :: rat
  history :: "rat list"

text \<open>\<open>xs.slice(-20)\<close>: the last 20 elements, all of a shorter list.\<close>

definition sliceLast20 :: "'a list \<Rightarrow> 'a list" where
  "sliceLast20 xs = drop (length xs - 20) xs"

definition stockEntry :: "price_state \<Rightarrow> string \<Rightarrow> stock_entry option" where
  "stockEntry st ticker =
     (case (stockPrices st ticker, calculateChange st ticker, priceHistory st ticker) of
        (Some p, Some c, Some h) \<Rightarrow> Some \<lparr>price = p, change = c, history = sliceLast20 h\<rparr>
      | _ \<Rightarrow> None)"

fun collectStockData :: "price_state \<Rightarrow> string list \<Rightarrow> (string \<times> stock_entry) list option" where
  "collectStockData st [] = Some []"
| "collectStockData st (t # ts) =
     (case stockEntry st t of
        None \<Rightarrow> None
      | Some e \<Rightarrow>
          (case collectStockData st ts of None \<Rightarrow> None | Some d \<Rightarrow> Some ((t, e) # d)))"

definition getFullStockData :: "price_state \<Rightarrow> (string \<times> stock_entry) list option" where
  "getFullStockData st = collectStockData st SUPPORTED_STOCKS"

text \<open>The body of the \<open>forEach\<close> in \<open>updatePrices\<close>, for one ticker.\<close>

definition updateTicker :: "(string \<Rightarrow> rat) \<Rightarrow> price_state \<Rightarrow> string \<Rightarrow> price_state option" where
  "updateTicker rnd st ticker =
     (case (stockPrices st ticker, priceHistory st ticker) of
        (Some p, Some h) \<Rightarrow>
          (let p' = generatePrice (rnd ticker) p;
               pushed = h @ [p'];
               h' = (if length pushed > 50 then tl pushed else pushed)
           in Some (st\<lparr>stockPrices := (stockPrices st)(ticker \<mapsto> p'),
                        priceHistory := (priceHistory st)(ticker \<mapsto> h')\<rparr>))
      | _ \<Rightarrow> None)"

fun updateAll :: "(string \<Rightarrow> rat) \<Rightarrow> price_state \<Rightarrow> string list \<Rightarrow> price_state option" where
  "updateAll rnd st [] = Some st"
| "updateAll rnd st (t # ts) =
     (case updateTicker rnd st t of None \<Rightarrow> None | Some st' \<Rightarrow> updateAll rnd st' ts)"

record price_data =
  stocks :: "(string \<times> stock_entry) list"
  timestamp :: string

definition updatePrices ::
  "(string \<Rightarrow> rat) \<Rightarrow> string \<Rightarrow> price_state \<Rightarrow> (price_state \<times> price_data) option" where
  "updatePrices rnd ts st =
     (case updateAll rnd st SUPPORTED_STOCKS of
        None \<Rightarrow> None
      | Some st' \<Rightarrow>
          (case getFullStockData st' of
             None \<Rightarrow> None
           | Some d \<Rightarrow> Some (st', \<lparr>stocks = d, timestamp = ts\<rparr>)))"

text \<open>\<open>n\<close> ticks in a row: the draws and the time stamp of each tick are given.\<close>

fun runTicks :: "((string \<Rightarrow> rat) \<times> string) list \<Rightarrow> price_state \<Rightarrow> price_state option" where
  "runTicks [] st = Some st"
| "runTicks ((rnd, ts) # rest) st =
     (case updatePrices rnd ts st of None \<Rightarrow> None | Some (st', _) \<Rightarrow> runTicks rest st')"

text \<open>
  What the scheduler emits in one period: \<open>io.emit\<close> reaches every connection,
  \<open>io.to(room).emit\<close> the connections in that room.
\<close>

datatype target = Everyone | Room string

datatype event =
    AllPricesUpdate "(string \<times> stock_entry) list" string
  | PriceUpdate string rat rat "rat list" string

fun emitTickerUpdates :: "price_data \<Rightarrow> string list \<Rightarrow> (target \<times> event) list option" where
  "emitTickerUpdates pd [] = Some []"
| "emitTickerUpdates pd (t # ts) =
     (case map_of (stocks pd) t of
        None \<Rightarrow> None
      | Some e \<Rightarrow>
          (case emitTickerUpdates pd ts of
             None \<Rightarrow> None
           | Some evs \<Rightarrow>
               Some ((Room (getTickerRoom t),
                      PriceUpdate t (price e) (change e) (history e) (timestamp pd)) # evs)))"

definition broadcastTick ::
  "(string \<Rightarrow> rat) \<Rightarrow> string \<Rightarrow> price_state \<Rightarrow> (price_state \<times> (target \<times> event) list) option" where
  "broadcastTick rnd ts st =
     (case updatePrices rnd ts st of
        None \<Rightarrow> None
      | Some (st', priceData) \<Rightarrow>
          (case emitTickerUpdates priceData SUPPORTED_STOCKS of
             None \<Rightarrow> None
           | Some evs \<Rightarrow>
               Some (st', (Everyone, AllPricesUpdate (stocks priceData) (timestamp priceData))
                            # evs)))"

text \<open>The events of one tick that a connection in the rooms \<open>rooms\<close> receives.\<close>

definition received :: "string list \<Rightarrow> (target \<times> event) list \<Rightarrow> event list" where
  "received rooms evs =
     map snd (filter (\<lambda>(tg, ev). case tg of Everyone \<Rightarrow> True | Room r \<Rightarrow> r \<in> set rooms) evs)"

text \<open>
  The invariant of the engine's state: every supported ticker has a price of at least 1
  and a history of 1 to 50 points. \<open>readTicker\<close> reads a ticker's price and history off
  the result of a run.
\<close>

definition tickerOk :: "price_state \<Rightarrow> string \<Rightarrow> bool" where
  "tickerOk st t =
     (case (stockPrices st t, priceHistory st t) of
        (Some p, Some h) \<Rightarrow> 1 \<le> p \<and> 1 \<le> length h \<and> length h \<le> 50
      | _ \<Rightarrow> False)"

definition stateOk :: "price_state \<Rightarrow> bool" where
  "stateOk st = list_all (tickerOk st) SUPPORTED_STOCKS"

definition readTicker :: "price_state option \<Rightarrow> string \<Rightarrow> (rat \<times> rat list) option" where
  "readTicker st t =
     (case st of
        None \<Rightarrow> None
      | Some s \<Rightarrow>
          (case (stockPrices s t, priceHistory s t) of
             (Some p, Some h) \<Rightarrow> Some (p, h)
           | _ \<Rightarrow> None))"

section \<open>Concrete states used to instantiate the theorems\<close>

definition demoUser :: user where
  "demoUser =
     \<lparr>uid = ''u1'', name = ''Ann'', email = ''ann@x.com'', password = ''hash-of-secret1'',
      subscribedStocks = [''GOOG''], refreshToken = None, refreshTokenExpiry = None,
      lastLogin = None, loginAttempts = 0, lockUntil = None, passwordChangedAt = None,
      isActive = True\<rparr>"

definition demoRooms :: "string list" where
  "demoRooms = [''sock1'', ''user_u1'', ''ticker:AAPL'', ''ticker:TSLA'']"

definition demoEnv :: env where
  "demoEnv = \<lparr>JWT_SECRET = Some ''s3cret'', JWT_REFRESH_SECRET = None\<rparr>"

definition untypedPayload :: jwt_payload where
  "untypedPayload = \<lparr>tok_id = ''u1'', tok_type = None, tok_iat = 900, tok_exp = 1800\<rparr>"

definition untypedToken :: token where
  "untypedToken = Jwt untypedPayload ''s3cret''"

definition demoAccessToken :: token where
  "demoAccessToken = jwt_sign ''u1'' ''access'' ''s3cret'' (15 * 60) 900000"

definition demoRefreshToken :: token where
  "demoRefreshToken = jwt_sign ''u1'' ''refresh'' ''s3cret'' (7 * 24 * 60 * 60) 900000"

definition deactivatedUser :: user where
  "deactivatedUser = demoUser\<lparr>isActive := False\<rparr>"

definition shortNameBody :: register_body where
  "shortNameBody =
     \<lparr>reg_name = Some ''A'', reg_email = Some ''bob@x.com'', reg_password = Some ''secret1''\<rparr>"

definition demoCompare :: "string \<Rightarrow> string \<Rightarrow> bool" where
  "demoCompare candidate stored = (stored = ''hash-of-'' @ candidate)"

definition demoLoginBody :: login_body where
  "demoLoginBody = \<lparr>body_email = Some ''ann@x.com'', body_password = Some ''secret1'', rememberMe = True\<rparr>"


definition wrongBody :: login_body where
  "wrongBody = \<lparr>body_email = Some ''ann@x.com'', body_password = Some ''guess'', rememberMe = False\<rparr>"

definition lockedUser :: user where
  "lockedUser = demoUser\<lparr>loginAttempts := 5, lockUntil := Some 7205000\<rparr>"

definition afterExpired :: user where
  "afterExpired = demoUser\<lparr>loginAttempts := 1, lockUntil := None\<rparr>"

definition demoLoginUser :: login_user where
  "demoLoginUser = \<lparr>lu_id = ''u1'', lu_name = ''Ann'', lu_email = ''ann@x.com'',
      lu_subscribedStocks = [''GOOG''], lu_lastLogin = None\<rparr>"

definition loggedInUser :: user where
  "loggedInUser = demoUser\<lparr>refreshToken := Some (Sha256 demoRefreshToken),
      refreshTokenExpiry := Some 605700000, lastLogin := Some 900000\<rparr>"

definition rotatedUser :: user where
  "rotatedUser = loggedInUser\<lparr>refreshTokenExpiry := Some 605700400\<rparr>"

definition fourFailures :: "(int \<times> login_body) list" where
  "fourFailures = [(1000, wrongBody), (2000, wrongBody), (3000, wrongBody), (4000, wrongBody)]"

definition demoTicks :: "((string \<Rightarrow> rat) \<times> string) list" where
  "demoTicks = [(\<lambda>t. 0, ''2026-01-01T00:00:00.000Z''), (\<lambda>t. 7 / 8, ''2026-01-01T00:00:01.000Z'')]"

definition fullHistoryState :: price_state where
  "fullHistoryState =
     \<lparr>stockPrices = basePrices,
      priceHistory = (\<lambda>t. if t = ''AAPL'' then Some (5 # replicate 49 7) else None)\<rparr>"

definition demoRnd :: "string \<Rightarrow> rat" where
  "demoRnd t = 7 / 8"

definition demoStamp :: string where
  "demoStamp = ''2026-01-01T00:00:01.000Z''"

definition demoStocks :: "(string \<times> stock_entry) list" where
  "demoStocks =
     [(''AAPL'', \<lparr>price = 4873 / 25, change = 39 / 50, history = [9671 / 50, 4873 / 25]\<rparr>),
      (''GOOG'', \<lparr>price = 19291 / 100, change = 39 / 50, history = [19141 / 100, 19291 / 100]\<rparr>),
      (''TSLA'', \<lparr>price = 9768 / 25, change = 39 / 100, history = [19461 / 50, 9768 / 25]\<rparr>),
      (''AMZN'', \<lparr>price = 182, change = 83 / 100, history = [361 / 2, 182]\<rparr>),
      (''META'', \<lparr>price = 11861 / 20, change = 1 / 4, history = [11831 / 20, 11861 / 20]\<rparr>),
      (''NVDA'', \<lparr>price = 559 / 4, change = 27 / 25, history = [553 / 4, 559 / 4]\<rparr>),
      (''MSFT'', \<lparr>price = 44989 / 100, change = 33 / 100, history = [44839 / 100, 44989 / 100]\<rparr>)]"

definition demoTickerEvents :: "(target \<times> event) list" where
  "demoTickerEvents =
     map (\<lambda>(t, e). (Room (''ticker:'' @ t),
                     PriceUpdate t (price e) (change e) (history e) demoStamp)) demoStocks"

definition demoPriceUpdate :: event where
  "demoPriceUpdate = PriceUpdate ''AAPL'' (4873 / 25) (39 / 50) [9671 / 50, 4873 / 25] demoStamp"

section \<open>Properties of the subscription store accessor\<close>

lemma findById_updateById:
  "(\<And>u. uid (f u) = uid u) \<Longrightarrow> findById (updateById i f db) i = map_option f (findById db i)"
  by (induction db) (auto simp: findById_def updateById_def)

lemma findById_updateById_Some:
  "findById db i = Some u \<Longrightarrow> (\<And>u. uid (f u) = uid u) \<Longrightarrow>
     findById (updateById i f db) i = Some (f u)"
  by (simp add: findById_updateById)

lemma storedStocks_saveStocks:
  "saveStocks i xs db = (StockOk ys, db') \<Longrightarrow> findById db i = Some u \<Longrightarrow>
     ys = xs \<and> storedStocks db' i = xs \<and> stocksValid xs"
  by (auto simp: saveStocks_def storedStocks_def findById_updateById split: if_splits)

lemma filter_neq_absent:
  "n \<notin> set xs \<Longrightarrow> filter (\<lambda>s. s \<noteq> n) xs = xs"
  by (induction xs) auto

lemma stocksValid_append:
  "stocksValid (xs @ [n]) = (stocksValid xs \<and> n \<in> set SUPPORTED_STOCKS)"
  by (auto simp: stocksValid_def)

lemma empty_not_supported: "[] \<notin> set SUPPORTED_STOCKS"
  by (simp add: SUPPORTED_STOCKS_def)

text \<open>
  C10. A successful unsubscribe answers with, and stores, the user's list filtered by
  the normalized ticker: every occurrence of that ticker is gone (its count in the result
  is zero, however often the stored list held it) and the other entries stay in their
  order.
\<close>

theorem unsubscribe_removes_every_occurrence:
  assumes "unsubscribeStock ticker i db = (StockOk xs, db')"
  shows "xs = filter (\<lambda>s. s \<noteq> normalizeTicker ticker) (storedStocks db i)
       \<and> count_list xs (normalizeTicker ticker) = 0
       \<and> storedStocks db' i = xs"
proof -
  let ?n = "normalizeTicker ticker"
  from assms obtain u where u: "findById db i = Some u"
    and s: "saveStocks i (filter (\<lambda>s. s \<noteq> ?n) (subscribedStocks u)) db = (StockOk xs, db')"
    by (auto simp: unsubscribeStock_def Let_def split: if_splits option.splits)
  from storedStocks_saveStocks [OF s u]
  have "xs = filter (\<lambda>s. s \<noteq> ?n) (subscribedStocks u)" and "storedStocks db' i = xs"
    by simp_all
  moreover have "storedStocks db i = subscribedStocks u"
    using u by (simp add: storedStocks_def)
  moreover have "count_list (filter (\<lambda>s. s \<noteq> ?n) (subscribedStocks u)) ?n = 0"
    by (simp add: count_list_0_iff)
  ultimately show ?thesis by simp
qed

theorem unsubscribe_removes_every_occurrence_witness:
  "unsubscribeStock (Some ''goog'') ''u1''
     [demoUser\<lparr>subscribedStocks := [''GOOG'', ''AAPL'', ''GOOG'']\<rparr>]
     = (StockOk [''AAPL''], [demoUser\<lparr>subscribedStocks := [''AAPL'']\<rparr>])
   \<and> [''AAPL''] = filter (\<lambda>s. s \<noteq> normalizeTicker (Some ''goog''))
        (storedStocks [demoUser\<lparr>subscribedStocks := [''GOOG'', ''AAPL'', ''GOOG'']\<rparr>] ''u1'')
   \<and> count_list [''AAPL''] (normalizeTicker (Some ''goog'')) = 0
   \<and> storedStocks [demoUser\<lparr>subscribedStocks := [''AAPL'']\<rparr>] ''u1'' = [''AAPL'']"
proof -
  have h: "unsubscribeStock (Some ''goog'') ''u1''
             [demoUser\<lparr>subscribedStocks := [''GOOG'', ''AAPL'', ''GOOG'']\<rparr>]
           = (StockOk [''AAPL''], [demoUser\<lparr>subscribedStocks := [''AAPL'']\<rparr>])"
    by code_simp
  from unsubscribe_removes_every_occurrence [OF h] h show ?thesis by blast
qed

text \<open>
  C7. When the normalized ticker is not in the user's stored list, subscribe followed by
  unsubscribe leaves the stored list as it was. When the subscribe succeeded, it appended
  the ticker, the unsubscribe answers with the original list, a second subscribe is
  refused as a duplicate and changes nothing in the store, and a list without repetition
  stays without repetition. The subscribe does succeed for a supported ticker and an
  existing user whose stored list passes the schema.
\<close>

theorem subscribe_unsubscribe_round_trip:
  assumes absent: "normalizeTicker ticker \<notin> set (storedStocks db i)"
  shows "(case subscribeStock ticker i db of (r1, db1) \<Rightarrow>
           storedStocks (snd (unsubscribeStock ticker i db1)) i = storedStocks db i
         \<and> (\<forall>xs. r1 = StockOk xs \<longrightarrow>
               xs = storedStocks db i @ [normalizeTicker ticker]
             \<and> storedStocks db1 i = xs
             \<and> fst (unsubscribeStock ticker i db1) = StockOk (storedStocks db i)
             \<and> subscribeStock ticker i db1 = (AlreadySubscribed (normalizeTicker ticker), db1)
             \<and> (distinct (storedStocks db i) \<longrightarrow> distinct xs))
         \<and> (normalizeTicker ticker \<in> set SUPPORTED_STOCKS \<and> findById db i \<noteq> None
               \<and> stocksValid (storedStocks db i)
             \<longrightarrow> r1 = StockOk (storedStocks db i @ [normalizeTicker ticker])))"
proof -
  let ?n = "normalizeTicker ticker"
  let ?L = "storedStocks db i"
  show ?thesis
  proof (cases "?n = [] \<or> ?n \<notin> set SUPPORTED_STOCKS")
    case True
    then show ?thesis
      using empty_not_supported
      by (auto simp: subscribeStock_def unsubscribeStock_def Let_def)
  next
    case supported: False
    show ?thesis
    proof (cases "findById db i")
      case None
      with supported show ?thesis
        by (auto simp: subscribeStock_def unsubscribeStock_def Let_def)
    next
      case (Some u)
      then have L: "?L = subscribedStocks u" by (simp add: storedStocks_def)
      with absent have nin: "?n \<notin> set (subscribedStocks u)" by simp
      show ?thesis
      proof (cases "stocksValid ?L")
        case False
        then have "subscribeStock ticker i db = (StockServerError, db)"
          using supported Some nin L
          by (simp add: subscribeStock_def Let_def saveStocks_def stocksValid_append)
        moreover have "unsubscribeStock ticker i db = (NotSubscribed ?n, db)"
          using supported Some nin by (simp add: unsubscribeStock_def Let_def)
        ultimately show ?thesis using False by simp
      next
        case True
        let ?f = "\<lambda>u::user. u\<lparr>subscribedStocks := ?L @ [?n]\<rparr>"
        let ?db1 = "updateById i ?f db"
        have s1: "subscribeStock ticker i db = (StockOk (?L @ [?n]), ?db1)"
          using supported Some nin L True
          by (simp add: subscribeStock_def Let_def saveStocks_def stocksValid_append)
        have f1: "findById ?db1 i = Some (?f u)"
          by (rule findById_updateById_Some [OF Some]) simp
        then have st1: "storedStocks ?db1 i = ?L @ [?n]"
          by (simp add: storedStocks_def)
        have s2: "subscribeStock ticker i ?db1 = (AlreadySubscribed ?n, ?db1)"
          using supported f1 by (simp add: subscribeStock_def Let_def)
        let ?g = "\<lambda>u::user. u\<lparr>subscribedStocks := ?L\<rparr>"
        have u1: "unsubscribeStock ticker i ?db1 = (StockOk ?L, updateById i ?g ?db1)"
          using supported f1 absent True
          by (simp add: unsubscribeStock_def Let_def saveStocks_def filter_neq_absent)
        have "findById (updateById i ?g ?db1) i = Some (?g (?f u))"
          by (rule findById_updateById_Some [OF f1]) simp
        then have st2: "storedStocks (updateById i ?g ?db1) i = ?L"
          by (simp add: storedStocks_def)
        show ?thesis
          using s1 s2 u1 st1 st2 absent by simp
      qed
    qed
  qed
qed

theorem subscribe_unsubscribe_round_trip_witness:
  "normalizeTicker (Some ''aapl'') \<notin> set (storedStocks [demoUser] ''u1'')
   \<and> subscribeStock (Some ''aapl'') ''u1'' [demoUser]
       = (StockOk [''GOOG'', ''AAPL''], [demoUser\<lparr>subscribedStocks := [''GOOG'', ''AAPL'']\<rparr>])
   \<and> storedStocks
       (snd (unsubscribeStock (Some ''aapl'') ''u1''
               [demoUser\<lparr>subscribedStocks := [''GOOG'', ''AAPL'']\<rparr>])) ''u1''
       = storedStocks [demoUser] ''u1''
   \<and> subscribeStock (Some ''aapl'') ''u1'' [demoUser\<lparr>subscribedStocks := [''GOOG'', ''AAPL'']\<rparr>]
       = (AlreadySubscribed (normalizeTicker (Some ''aapl'')),
          [demoUser\<lparr>subscribedStocks := [''GOOG'', ''AAPL'']\<rparr>])"
proof -
  have h: "normalizeTicker (Some ''aapl'') \<notin> set (storedStocks [demoUser] ''u1'')"
    by code_simp
  have s: "subscribeStock (Some ''aapl'') ''u1'' [demoUser]
       = (StockOk [''GOOG'', ''AAPL''], [demoUser\<lparr>subscribedStocks := [''GOOG'', ''AAPL'']\<rparr>])"
    by code_simp
  note r = subscribe_unsubscribe_round_trip [OF h, unfolded s prod.case]
  from r have a: "storedStocks
       (snd (unsubscribeStock (Some ''aapl'') ''u1''
               [demoUser\<lparr>subscribedStocks := [''GOOG'', ''AAPL'']\<rparr>])) ''u1''
       = storedStocks [demoUser] ''u1''"
    by (rule conjunct1)
  from r have b: "subscribeStock (Some ''aapl'') ''u1''
         [demoUser\<lparr>subscribedStocks := [''GOOG'', ''AAPL'']\<rparr>]
       = (AlreadySubscribed (normalizeTicker (Some ''aapl'')),
          [demoUser\<lparr>subscribedStocks := [''GOOG'', ''AAPL'']\<rparr>])"
    by blast
  from h s a b show ?thesis by (intro conjI)
qed

section \<open>Properties of the channel reconciliation\<close>

lemma set_newSet_aux: "set (fold setAdd xs acc) = set xs \<union> set acc"
  by (induction xs arbitrary: acc) (auto simp: setAdd_def)

lemma distinct_newSet_aux: "distinct acc \<Longrightarrow> distinct (fold setAdd xs acc)"
  by (induction xs arbitrary: acc) (auto simp: setAdd_def)

lemma set_newSet: "set (newSet xs) = set xs"
  by (simp add: newSet_def set_newSet_aux)

lemma distinct_newSet: "distinct (newSet xs)"
  by (simp add: newSet_def distinct_newSet_aux)

lemma fold_leave:
  "fold (\<lambda>room rs. if room \<notin> D then setDelete room rs else rs) cur rooms
     = filter (\<lambda>r. \<not> (r \<in> set cur \<and> r \<notin> D)) rooms"
proof (induction cur arbitrary: rooms)
  case Nil
  then show ?case by simp
next
  case (Cons c cur)
  have "filter (\<lambda>r. \<not> (r \<in> set cur \<and> r \<notin> D)) (setDelete c rooms)
          = filter (\<lambda>r. \<not> (r \<in> set (c # cur) \<and> r \<notin> D)) rooms" if "c \<notin> D"
    using that by (induction rooms) (auto simp: setDelete_def)
  moreover have "filter (\<lambda>r. \<not> (r \<in> set cur \<and> r \<notin> D)) rooms
          = filter (\<lambda>r. \<not> (r \<in> set (c # cur) \<and> r \<notin> D)) rooms" if "c \<in> D"
    using that by (induction rooms) auto
  ultimately show ?case using Cons.IH by simp
qed

lemma set_fold_join:
  "set (fold (\<lambda>room rs. if room \<notin> C then setAdd room rs else rs) des rs)
     = set rs \<union> {r \<in> set des. r \<notin> C}"
  by (induction des arbitrary: rs) (auto simp: setAdd_def)

lemma distinct_fold_join:
  "distinct rs \<Longrightarrow> distinct (fold (\<lambda>room rs. if room \<notin> C then setAdd room rs else rs) des rs)"
  by (induction des arbitrary: rs) (auto simp: setAdd_def)

lemma fold_join_prefix:
  "\<exists>added. fold (\<lambda>room rs. if room \<notin> C then setAdd room rs else rs) des rs = rs @ added
      \<and> set added \<subseteq> {r \<in> set des. r \<notin> C}"
proof (induction des arbitrary: rs)
  case Nil
  then show ?case by simp
next
  case (Cons d des)
  show ?case
  proof (cases "d \<notin> C \<and> d \<notin> set rs")
    case True
    from Cons.IH [of "rs @ [d]"] obtain added where
      "fold (\<lambda>room rs. if room \<notin> C then setAdd room rs else rs) des (rs @ [d]) = (rs @ [d]) @ added"
      "set added \<subseteq> {r \<in> set des. r \<notin> C}" by blast
    with True show ?thesis
      by (intro exI [of _ "d # added"]) (auto simp: setAdd_def)
  next
    case False
    from Cons.IH [of rs] obtain added where
      "fold (\<lambda>room rs. if room \<notin> C then setAdd room rs else rs) des rs = rs @ added"
      "set added \<subseteq> {r \<in> set des. r \<notin> C}" by blast
    with False show ?thesis
      by (intro exI [of _ added]) (auto simp: setAdd_def)
  qed
qed

lemma fold_join_noop:
  "set des \<subseteq> C \<Longrightarrow> fold (\<lambda>room rs. if room \<notin> C then setAdd room rs else rs) des rs = rs"
  by (induction des arbitrary: rs) auto

lemma startsWith_getTickerRoom: "startsWith (getTickerRoom t) ''ticker:''"
  by (simp add: startsWith_def getTickerRoom_def)

lemma set_sync:
  "set (syncTickerRooms rooms subs)
     = {r \<in> set rooms. \<not> startsWith r ''ticker:''} \<union> desiredRooms subs"
  unfolding syncTickerRooms_def Let_def set_fold_join fold_leave
  by (auto simp: set_newSet getSocketTickerRooms_def desiredRooms_def startsWith_getTickerRoom)

lemma distinct_sync: "distinct rooms \<Longrightarrow> distinct (syncTickerRooms rooms subs)"
  unfolding syncTickerRooms_def Let_def fold_leave
  by (rule distinct_fold_join) simp

lemma filter_filter_weaken:
  "(\<And>x. x \<in> set xs \<Longrightarrow> P x \<Longrightarrow> Q x) \<Longrightarrow> filter P (filter Q xs) = filter P xs"
  by (induction xs) auto

lemma filter_sync:
  "filter (\<lambda>r. \<not> startsWith r ''ticker:'') (syncTickerRooms rooms subs)
     = filter (\<lambda>r. \<not> startsWith r ''ticker:'') rooms"
proof -
  let ?D = "newSet (map getTickerRoom (case subs of None \<Rightarrow> [] | Some ts \<Rightarrow> ts))"
  let ?C = "newSet (getSocketTickerRooms rooms)"
  let ?left = "filter (\<lambda>r. \<not> (r \<in> set ?C \<and> r \<notin> set ?D)) rooms"
  from fold_join_prefix [of "set ?C" ?D ?left] obtain added where
    a: "fold (\<lambda>room rs. if room \<notin> set ?C then setAdd room rs else rs) ?D ?left = ?left @ added"
    and b: "set added \<subseteq> {r \<in> set ?D. r \<notin> set ?C}" by blast
  have "filter (\<lambda>r. \<not> startsWith r ''ticker:'') added = []"
    using b by (auto simp: filter_empty_conv set_newSet startsWith_getTickerRoom)
  moreover have "filter (\<lambda>r. \<not> startsWith r ''ticker:'') ?left
                   = filter (\<lambda>r. \<not> startsWith r ''ticker:'') rooms"
    by (rule filter_filter_weaken) (simp add: set_newSet getSocketTickerRooms_def)
  ultimately show ?thesis
    unfolding syncTickerRooms_def Let_def fold_leave a by simp
qed

lemma sync_fixpoint:
  assumes "set (getSocketTickerRooms rooms) = desiredRooms subs"
  shows "syncTickerRooms rooms subs = rooms"
proof -
  let ?D = "newSet (map getTickerRoom (case subs of None \<Rightarrow> [] | Some ts \<Rightarrow> ts))"
  let ?C = "newSet (getSocketTickerRooms rooms)"
  have eq: "set ?C = set ?D"
    using assms by (simp add: set_newSet desiredRooms_def)
  then have "filter (\<lambda>r. \<not> (r \<in> set ?C \<and> r \<notin> set ?D)) rooms = rooms"
    by simp
  moreover have "fold (\<lambda>room rs. if room \<notin> set ?C then setAdd room rs else rs) ?D rooms = rooms"
    by (rule fold_join_noop) (simp add: eq)
  ultimately show ?thesis
    unfolding syncTickerRooms_def Let_def fold_leave by simp
qed

lemma ticker_rooms_sync:
  "set (getSocketTickerRooms (syncTickerRooms rooms subs)) = desiredRooms subs"
  by (auto simp: getSocketTickerRooms_def set_sync desiredRooms_def startsWith_getTickerRoom)

text \<open>
  C6. For any rooms of a connection and any desired list, one reconciliation leaves the
  connection in exactly the ticker channels of the list (none stale, none missing), keeps
  the rooms free of repetition, leaves every other room where it was, and a second
  reconciliation with the same list returns the same rooms. The resulting membership
  depends only on the set of desired channels, not on the order or repetitions of the list.
\<close>

theorem syncTickerRooms_idempotent:
  "set (getSocketTickerRooms (syncTickerRooms rooms subs)) = desiredRooms subs
   \<and> (distinct rooms \<longrightarrow> distinct (syncTickerRooms rooms subs))
   \<and> filter (\<lambda>r. \<not> startsWith r ''ticker:'') (syncTickerRooms rooms subs)
       = filter (\<lambda>r. \<not> startsWith r ''ticker:'') rooms
   \<and> syncTickerRooms (syncTickerRooms rooms subs) subs = syncTickerRooms rooms subs
   \<and> (\<forall>subs'. desiredRooms subs' = desiredRooms subs \<longrightarrow>
         set (syncTickerRooms rooms subs') = set (syncTickerRooms rooms subs))"
  using ticker_rooms_sync distinct_sync filter_sync sync_fixpoint [OF ticker_rooms_sync]
  by (simp add: set_sync)

theorem syncTickerRooms_idempotent_witness:
  "distinct demoRooms
   \<and> syncTickerRooms demoRooms (Some [''GOOG'', ''AAPL'', ''GOOG''])
       = [''sock1'', ''user_u1'', ''ticker:AAPL'', ''ticker:GOOG'']
   \<and> distinct (syncTickerRooms demoRooms (Some [''GOOG'', ''AAPL'', ''GOOG'']))
   \<and> syncTickerRooms (syncTickerRooms demoRooms (Some [''GOOG'', ''AAPL'', ''GOOG'']))
         (Some [''GOOG'', ''AAPL'', ''GOOG''])
       = syncTickerRooms demoRooms (Some [''GOOG'', ''AAPL'', ''GOOG''])
   \<and> desiredRooms (Some [''AAPL'', ''GOOG'']) = desiredRooms (Some [''GOOG'', ''AAPL'', ''GOOG''])
   \<and> set (syncTickerRooms demoRooms (Some [''AAPL'', ''GOOG'']))
       = set (syncTickerRooms demoRooms (Some [''GOOG'', ''AAPL'', ''GOOG'']))"
proof -
  have d: "distinct demoRooms" by code_simp
  have v: "syncTickerRooms demoRooms (Some [''GOOG'', ''AAPL'', ''GOOG''])
             = [''sock1'', ''user_u1'', ''ticker:AAPL'', ''ticker:GOOG'']"
    by code_simp
  have e: "desiredRooms (Some [''AAPL'', ''GOOG'']) = desiredRooms (Some [''GOOG'', ''AAPL'', ''GOOG''])"
    by (auto simp: desiredRooms_def)
  note t = syncTickerRooms_idempotent [of demoRooms "Some [''GOOG'', ''AAPL'', ''GOOG'']"]
  from t d have "distinct (syncTickerRooms demoRooms (Some [''GOOG'', ''AAPL'', ''GOOG'']))"
    by blast
  moreover from t have
    "syncTickerRooms (syncTickerRooms demoRooms (Some [''GOOG'', ''AAPL'', ''GOOG'']))
         (Some [''GOOG'', ''AAPL'', ''GOOG''])
       = syncTickerRooms demoRooms (Some [''GOOG'', ''AAPL'', ''GOOG''])"
    by blast
  moreover from t e have "set (syncTickerRooms demoRooms (Some [''AAPL'', ''GOOG'']))
       = set (syncTickerRooms demoRooms (Some [''GOOG'', ''AAPL'', ''GOOG'']))"
    by blast
  ultimately show ?thesis using d v e by (intro conjI)
qed

section \<open>Properties of the protect middleware and the socket handshake\<close>

lemma jwt_verify_Inr:
  "jwt_verify tok (Some k) now = Inr p \<Longrightarrow> tok = Jwt p k \<and> now div 1000 < tok_exp p"
  by (auto simp: jwt_verify_def split: token.splits if_splits)

lemma jwt_verify_Jwt:
  "jwt_verify (Jwt p k) (Some k) now
     = (if now div 1000 \<ge> tok_exp p then Inl TokenExpiredError else Inr p)"
  by (simp add: jwt_verify_def)

text \<open>
  C9. \<open>protect\<close> answers \<open>INVALID_TOKEN_TYPE\<close> only for a token that verifies and whose
  payload carries a \<open>type\<close> other than \<open>'access'\<close>. A token that verifies and carries no
  \<open>type\<close> at all is not refused for its type, and \<open>protect\<close> answers it exactly as it answers
  the same payload marked \<open>type: 'access'\<close>.
\<close>

theorem protect_type_check:
  "(protect e now bearer db = Unauthorized ''INVALID_TOKEN_TYPE'' \<longrightarrow>
      (\<exists>tok k p t. givenToken bearer = Some tok \<and> JWT_SECRET e = Some k
          \<and> jwt_verify tok (Some k) now = Inr p
          \<and> tok_type p = Some t \<and> t \<noteq> JStr ''access''))
   \<and> (\<forall>tok k p. givenToken bearer = Some tok \<and> JWT_SECRET e = Some k
          \<and> jwt_verify tok (Some k) now = Inr p \<and> tok_type p = None \<longrightarrow>
        protect e now bearer db \<noteq> Unauthorized ''INVALID_TOKEN_TYPE''
        \<and> protect e now bearer db
            = protect e now (Some (Jwt (p\<lparr>tok_type := Some (JStr ''access'')\<rparr>) k)) db)"
proof (intro conjI allI impI)
  assume "protect e now bearer db = Unauthorized ''INVALID_TOKEN_TYPE''"
  then show "\<exists>tok k p t. givenToken bearer = Some tok \<and> JWT_SECRET e = Some k
          \<and> jwt_verify tok (Some k) now = Inr p
          \<and> tok_type p = Some t \<and> t \<noteq> JStr ''access''"
    by (auto simp: protect_def split: option.splits sum.splits jwt_error.splits if_splits)
next
  fix tok k p
  assume a: "givenToken bearer = Some tok \<and> JWT_SECRET e = Some k
          \<and> jwt_verify tok (Some k) now = Inr p \<and> tok_type p = None"
  then show "protect e now bearer db \<noteq> Unauthorized ''INVALID_TOKEN_TYPE''"
    by (auto simp: protect_def split: option.splits if_splits)
next
  fix tok k p
  assume a: "givenToken bearer = Some tok \<and> JWT_SECRET e = Some k
          \<and> jwt_verify tok (Some k) now = Inr p \<and> tok_type p = None"
  then have "tok = Jwt p k" and "now div 1000 < tok_exp p"
    using jwt_verify_Inr by blast+
  with a show "protect e now bearer db
            = protect e now (Some (Jwt (p\<lparr>tok_type := Some (JStr ''access'')\<rparr>) k)) db"
    by (simp add: protect_def jwt_verify_Jwt split: option.splits)
qed

theorem protect_type_check_witness:
  "protect demoEnv 1000000 (Some demoRefreshToken) [demoUser] = Unauthorized ''INVALID_TOKEN_TYPE''
   \<and> (\<exists>tok k p t. givenToken (Some demoRefreshToken) = Some tok \<and> JWT_SECRET demoEnv = Some k
          \<and> jwt_verify tok (Some k) 1000000 = Inr p
          \<and> tok_type p = Some t \<and> t \<noteq> JStr ''access'')
   \<and> givenToken (Some untypedToken) = Some untypedToken
   \<and> JWT_SECRET demoEnv = Some ''s3cret''
   \<and> jwt_verify untypedToken (Some ''s3cret'') 1000000 = Inr untypedPayload
   \<and> tok_type untypedPayload = None
   \<and> protect demoEnv 1000000 (Some untypedToken) [demoUser] = Next_user demoUser
   \<and> protect demoEnv 1000000 (Some untypedToken) [demoUser]
       = protect demoEnv 1000000
           (Some (Jwt (untypedPayload\<lparr>tok_type := Some (JStr ''access'')\<rparr>) ''s3cret''))
           [demoUser]"
proof -
  have r: "protect demoEnv 1000000 (Some demoRefreshToken) [demoUser]
             = Unauthorized ''INVALID_TOKEN_TYPE''"
    by code_simp
  have g: "givenToken (Some untypedToken) = Some untypedToken"
    by (simp add: untypedToken_def)
  have k: "JWT_SECRET demoEnv = Some ''s3cret''"
    by (simp add: demoEnv_def)
  have v: "jwt_verify untypedToken (Some ''s3cret'') 1000000 = Inr untypedPayload"
    by (simp add: untypedToken_def untypedPayload_def jwt_verify_def)
  have n: "tok_type untypedPayload = None"
    by (simp add: untypedPayload_def)
  have ok: "protect demoEnv 1000000 (Some untypedToken) [demoUser] = Next_user demoUser"
    by code_simp
  note t1 = protect_type_check [of demoEnv 1000000 "Some demoRefreshToken" "[demoUser]"]
  note t2 = protect_type_check [of demoEnv 1000000 "Some untypedToken" "[demoUser]"]
  from t1 r have a: "\<exists>tok k p t. givenToken (Some demoRefreshToken) = Some tok
          \<and> JWT_SECRET demoEnv = Some k \<and> jwt_verify tok (Some k) 1000000 = Inr p
          \<and> tok_type p = Some t \<and> t \<noteq> JStr ''access''"
    by blast
  from t2 g k v n have b: "protect demoEnv 1000000 (Some untypedToken) [demoUser]
       = protect demoEnv 1000000
           (Some (Jwt (untypedPayload\<lparr>tok_type := Some (JStr ''access'')\<rparr>) ''s3cret''))
           [demoUser]"
    by blast
  from r a g k v n ok b show ?thesis by (intro conjI)
qed

lemma protect_imp_socketAuth:
  "protect e now tok db = Next_user u \<Longrightarrow> socketAuth e now tok db = Admitted u"
  by (auto simp: protect_def socketAuth_def
           split: option.splits sum.splits jwt_error.splits if_splits)

text \<open>
  C4. The handshake is weaker than \<open>protect\<close>. Every token \<open>protect\<close> lets through is
  admitted by the handshake, but not the other way round: the handshake has no type check
  and no check of \<open>isActive\<close>. With the refresh secret unset, a refresh token is signed with
  \<open>JWT_SECRET\<close>; \<open>protect\<close> refuses it for its type and the handshake admits it. \<open>protect\<close>
  refuses the access token of a deactivated account and the handshake admits it.
\<close>

theorem socketAuth_admits_what_protect_rejects:
  "protect demoEnv 1000000 (Some demoAccessToken) [deactivatedUser]
     = Unauthorized ''ACCOUNT_DEACTIVATED''
   \<and> socketAuth demoEnv 1000000 (Some demoAccessToken) [deactivatedUser]
     = Admitted deactivatedUser
   \<and> protect demoEnv 1000000 (Some demoRefreshToken) [demoUser]
     = Unauthorized ''INVALID_TOKEN_TYPE''
   \<and> socketAuth demoEnv 1000000 (Some demoRefreshToken) [demoUser] = Admitted demoUser"
  by code_simp

section \<open>Properties of registration\<close>

lemma register_bad_name:
  assumes "reg_name body = Some nm" "reg_email body = Some em" "reg_password body = Some pw"
    and "nm \<noteq> []" "em \<noteq> []" "6 \<le> length pw"
    and "length (trim nm) < 2 \<or> 50 < length (trim nm)"
  shows "register emailMatches hash newId body db
           = (if findOneByEmail db em = None then RegServerError else RegEmailTaken, db)"
  using assms
  by (auto simp: register_def validateUser_def split: option.splits)

text \<open>
  C8. A one-letter name with email and password present and a password of 7 characters:
  the handler's own checks pass, the schema validation of \<open>User.create\<close> throws, and the
  \<open>catch\<close> branch answers 500, not 400. This holds whatever the email pattern and the
  hash are. In general, a present name whose trimmed length is outside 2..50 never gets
  the answer 400 for its length: the answer is 500, or 400 for an email already in use.
\<close>

theorem register_short_name_answers_500:
  "register emailMatches hash newId shortNameBody [demoUser] = (RegServerError, [demoUser])
   \<and> registerStatus (fst (register emailMatches hash newId shortNameBody [demoUser])) = 500"
  by code_simp

section \<open>Properties of login and lockout\<close>

lemma find_map_preserve:
  "(\<And>x. P (g x) = P x) \<Longrightarrow> find P (map g xs) = map_option g (find P xs)"
  by (induction xs) auto

lemma findOneByEmail_updateById:
  "(\<And>d. email (f d) = email d) \<Longrightarrow>
     findOneByEmail (updateById i f db) em
       = map_option (\<lambda>d. if uid d = i then f d else d) (findOneByEmail db em)"
  unfolding findOneByEmail_def updateById_def
  by (rule find_map_preserve) simp

lemma login_locked:
  assumes "findOneByEmail db em = Some u" "isActive u"
    and "body_email body = Some em" "body_password body = Some pw" "em \<noteq> []" "pw \<noteq> []"
    and "isLocked u now"
  shows "login e now compare body db = (LoginLocked (lockTimeRemaining u now), db)"
  using assms by (simp add: login_def)

lemma lockTimeRemaining_pos:
  assumes "isLocked u now"
  shows "\<exists>l. lockUntil u = Some l \<and> lockTimeRemaining u now = \<lceil>rat_of_int (l - now) / 60000\<rceil>
           \<and> 1 \<le> lockTimeRemaining u now"
proof -
  from assms obtain l where l: "lockUntil u = Some l" "l > now"
    by (auto simp: isLocked_def split: option.splits)
  then have "0 < rat_of_int (l - now) / 60000" by simp
  then have "0 < \<lceil>rat_of_int (l - now) / 60000\<rceil>" by (simp only: zero_less_ceiling)
  with l show ?thesis by (simp add: lockTimeRemaining_def)
qed

lemma login_mismatch:
  assumes "findOneByEmail db em = Some u" "isActive u"
    and "body_email body = Some em" "body_password body = Some pw" "em \<noteq> []" "pw \<noteq> []"
    and "\<not> isLocked u now" "\<not> compare pw (password u)"
  shows "fst (login e now compare body db) = LoginInvalid"
    and "findOneByEmail (snd (login e now compare body db)) em = Some (afterMismatch u now)"
  using assms
  by (simp_all add: login_def incLoginAttempts_def findOneByEmail_updateById afterMismatch_def)

lemma login_success:
  assumes "findOneByEmail db em = Some u" "isActive u"
    and "body_email body = Some em" "body_password body = Some pw" "em \<noteq> []" "pw \<noteq> []"
    and "\<not> isLocked u now" "compare pw (password u)" "JWT_SECRET e = Some k"
  shows "loginStatus (fst (login e now compare body db)) = 200"
    and "findOneByEmail (snd (login e now compare body db)) em
          = Some (u\<lparr>loginAttempts := 0, lastLogin := Some now, lockUntil := None,
                    refreshToken := Some (Sha256 (jwt_sign (uid u) ''refresh''
                       (case JWT_REFRESH_SECRET e of Some r \<Rightarrow> r | None \<Rightarrow> k) 604800 now)),
                    refreshTokenExpiry := Some (now + 604800000)\<rparr>)"
  using assms
  by (simp_all add: login_def resetLoginAttempts_def findOneByEmail_updateById Let_def
        generateAccessToken_def generateRefreshToken_def refreshSecret_def split: option.splits)


lemma loginAll_append:
  "loginAll e compare (xs @ ys) db = loginAll e compare ys (loginAll e compare xs db)"
  by (induction xs arbitrary: db) auto

lemma wrongPassword_attempts [simp]:
  "wrongPassword compare em (u\<lparr>loginAttempts := n\<rparr>) body = wrongPassword compare em u body"
  by (simp add: wrongPassword_def split: option.splits)

lemma failures_below_five:
  assumes "findOneByEmail db em = Some u" "isActive u" "lockUntil u = None"
    and "list_all (\<lambda>(now, body). wrongPassword compare em u body) reqs"
    and "loginAttempts u + int (length reqs) < 5"
  shows "findOneByEmail (loginAll e compare reqs db) em
           = Some (u\<lparr>loginAttempts := loginAttempts u + int (length reqs)\<rparr>)"
  using assms
proof (induction reqs arbitrary: db u)
  case Nil
  then show ?case by simp
next
  case (Cons r reqs)
  obtain now body where r: "r = (now, body)" by (cases r)
  from Cons.prems r obtain pw where
    b: "em \<noteq> []" "body_email body = Some em" "body_password body = Some pw" "pw \<noteq> []"
       "\<not> compare pw (password u)"
    by (auto simp: wrongPassword_def split: option.splits)
  have nl: "\<not> isLocked u now" using Cons.prems by (simp add: isLocked_def)
  let ?u' = "u\<lparr>loginAttempts := loginAttempts u + 1\<rparr>"
  have "afterMismatch u now = ?u'"
    using Cons.prems by (simp add: afterMismatch_def)
  with login_mismatch(2) [where compare = compare and e = e, OF Cons.prems(1,2) b(2,3,1,4) nl b(5)]
  have f: "findOneByEmail (snd (login e now compare body db)) em = Some ?u'" by simp
  have w: "list_all (\<lambda>(now, body). wrongPassword compare em ?u' body) reqs"
    using Cons.prems(4) by simp
  have "findOneByEmail (loginAll e compare reqs (snd (login e now compare body db))) em
          = Some (?u'\<lparr>loginAttempts := loginAttempts ?u' + int (length reqs)\<rparr>)"
    by (rule Cons.IH [OF f _ _ w]) (use Cons.prems in simp_all)
  then show ?case using r by (simp add: add.assoc)
qed

lemma five_failures_lock:
  assumes "findOneByEmail db em = Some u" "isActive u" "lockUntil u = None" "loginAttempts u = 0"
    and "list_all (\<lambda>(now, body). wrongPassword compare em u body) reqs" "length reqs = 4"
    and "wrongPassword compare em u body5"
  shows "findOneByEmail (loginAll e compare (reqs @ [(t5, body5)]) db) em
           = Some (u\<lparr>loginAttempts := 5, lockUntil := Some (t5 + 7200000)\<rparr>)"
proof -
  let ?u4 = "u\<lparr>loginAttempts := 4\<rparr>"
  let ?db4 = "loginAll e compare reqs db"
  have f4: "findOneByEmail ?db4 em = Some ?u4"
    using failures_below_five [OF assms(1,2,3,5), of e] assms(4,6) by simp
  from assms(7) obtain pw where
    b: "em \<noteq> []" "body_email body5 = Some em" "body_password body5 = Some pw" "pw \<noteq> []"
       "\<not> compare pw (password ?u4)"
    by (auto simp: wrongPassword_def split: option.splits)
  have nl: "\<not> isLocked ?u4 t5" using assms(3) by (simp add: isLocked_def)
  have act: "isActive ?u4" using assms(2) by simp
  have "afterMismatch ?u4 t5 = u\<lparr>loginAttempts := 5, lockUntil := Some (t5 + 7200000)\<rparr>"
    using assms(3) by (simp add: afterMismatch_def)
  with login_mismatch(2) [where compare = compare and e = e, OF f4 act b(2,3,1,4) nl b(5)]
  show ?thesis by (simp add: loginAll_append)
qed


text \<open>
  C5, as stated, fails: a mismatch on an account whose earlier lockout has expired does
  not increment the counter, it restarts it at 1 and clears the lockout. Here the account
  was locked until 7205000 ms with the counter at 5, and the mismatch comes at 7300000 ms.
\<close>

theorem login_mismatch_after_expired_lock:
  "login demoEnv 7300000 demoCompare wrongBody [lockedUser] = (LoginInvalid, [afterExpired])
   \<and> loginAttempts afterExpired \<noteq> loginAttempts lockedUser + 1"
  by code_simp

text \<open>
  C5, as the code has it. For an active account found by the email of the request:
  while locked, every login (whatever the password) answers 423 with the minutes left,
  rounded up and at least 1, and leaves the store unchanged; a password mismatch on an
  account that is not locked either restarts the counter at 1 and clears the lockout (when
  an earlier lockout has expired) or adds 1 to the counter and, when that reaches 5, sets
  the lockout to two hours from now; a matching password on an account that is not locked
  (the lockout time has passed or was never set), with the signing secret configured,
  answers 200 and leaves the counter at 0 and the lockout cleared; and five mismatches in
  a row on a fresh account leave the counter at 5 and the lockout two hours after the
  fifth.
\<close>

theorem login_lockout:
  assumes found: "findOneByEmail db em = Some u" and active: "isActive u"
    and body: "body_email body = Some em" "body_password body = Some pw" "em \<noteq> []" "pw \<noteq> []"
  shows
   "(isLocked u now \<longrightarrow>
       login e now compare body db = (LoginLocked (lockTimeRemaining u now), db)
       \<and> (\<exists>l. lockUntil u = Some l
             \<and> lockTimeRemaining u now = \<lceil>rat_of_int (l - now) / 60000\<rceil>
             \<and> 1 \<le> lockTimeRemaining u now))
    \<and> (\<not> isLocked u now \<and> \<not> compare pw (password u) \<longrightarrow>
         fst (login e now compare body db) = LoginInvalid
         \<and> (\<exists>u'. findOneByEmail (snd (login e now compare body db)) em = Some u'
               \<and> (if (case lockUntil u of None \<Rightarrow> False | Some l \<Rightarrow> l < now)
                   then loginAttempts u' = 1 \<and> lockUntil u' = None
                   else loginAttempts u' = loginAttempts u + 1
                      \<and> lockUntil u' = (if loginAttempts u + 1 \<ge> 5
                                         then Some (now + 2 * 60 * 60 * 1000)
                                         else lockUntil u))))
    \<and> (\<not> isLocked u now \<and> compare pw (password u) \<and> JWT_SECRET e \<noteq> None \<longrightarrow>
         loginStatus (fst (login e now compare body db)) = 200
         \<and> (\<exists>u'. findOneByEmail (snd (login e now compare body db)) em = Some u'
               \<and> loginAttempts u' = 0 \<and> lockUntil u' = None))
    \<and> (\<forall>(reqs :: (int \<times> login_body) list) body5 t5.
         loginAttempts u = 0 \<and> lockUntil u = None
         \<and> list_all (\<lambda>(t, b). wrongPassword compare em u b) reqs \<and> length reqs = 4
         \<and> wrongPassword compare em u body5 \<longrightarrow>
         findOneByEmail (loginAll e compare (reqs @ [(t5, body5)]) db) em
           = Some (u\<lparr>loginAttempts := 5, lockUntil := Some (t5 + 2 * 60 * 60 * 1000)\<rparr>))"
proof (intro conjI impI allI)
  assume l: "isLocked u now"
  show "login e now compare body db = (LoginLocked (lockTimeRemaining u now), db)"
    by (rule login_locked [OF found active body l])
  show "\<exists>l. lockUntil u = Some l
             \<and> lockTimeRemaining u now = \<lceil>rat_of_int (l - now) / 60000\<rceil>
             \<and> 1 \<le> lockTimeRemaining u now"
    by (rule lockTimeRemaining_pos [OF l])
next
  assume a: "\<not> isLocked u now \<and> \<not> compare pw (password u)"
  then have nl: "\<not> isLocked u now" and nm: "\<not> compare pw (password u)" by simp_all
  show "fst (login e now compare body db) = LoginInvalid"
    by (rule login_mismatch(1) [where compare = compare, OF found active body nl nm])
  have "findOneByEmail (snd (login e now compare body db)) em = Some (afterMismatch u now)"
    by (rule login_mismatch(2) [where compare = compare, OF found active body nl nm])
  then show "\<exists>u'. findOneByEmail (snd (login e now compare body db)) em = Some u'
               \<and> (if (case lockUntil u of None \<Rightarrow> False | Some l \<Rightarrow> l < now)
                   then loginAttempts u' = 1 \<and> lockUntil u' = None
                   else loginAttempts u' = loginAttempts u + 1
                      \<and> lockUntil u' = (if loginAttempts u + 1 \<ge> 5
                                         then Some (now + 2 * 60 * 60 * 1000)
                                         else lockUntil u))"
    by (simp add: afterMismatch_def)
next
  assume a: "\<not> isLocked u now \<and> compare pw (password u) \<and> JWT_SECRET e \<noteq> None"
  then obtain k where k: "JWT_SECRET e = Some k" by auto
  from a have nl: "\<not> isLocked u now" and m: "compare pw (password u)" by simp_all
  show "loginStatus (fst (login e now compare body db)) = 200"
    by (rule login_success(1) [where compare = compare, OF found active body nl m k])
  show "\<exists>u'. findOneByEmail (snd (login e now compare body db)) em = Some u'
               \<and> loginAttempts u' = 0 \<and> lockUntil u' = None"
    using login_success(2) [where compare = compare, OF found active body nl m k] by simp
next
  fix reqs :: "(int \<times> login_body) list" and body5 t5
  assume a: "loginAttempts u = 0 \<and> lockUntil u = None
         \<and> list_all (\<lambda>(t, b). wrongPassword compare em u b) reqs \<and> length reqs = 4
         \<and> wrongPassword compare em u body5"
  then show "findOneByEmail (loginAll e compare (reqs @ [(t5, body5)]) db) em
           = Some (u\<lparr>loginAttempts := 5, lockUntil := Some (t5 + 2 * 60 * 60 * 1000)\<rparr>)"
    using five_failures_lock [where compare = compare and e = e, OF found active] by simp
qed


theorem login_lockout_witness:
  "findOneByEmail [lockedUser] ''ann@x.com'' = Some lockedUser \<and> isActive lockedUser
   \<and> isLocked lockedUser 6000
   \<and> login demoEnv 6000 demoCompare demoLoginBody [lockedUser] = (LoginLocked 120, [lockedUser])
   \<and> \<not> isLocked demoUser 1000 \<and> \<not> demoCompare ''guess'' (password demoUser)
   \<and> fst (login demoEnv 1000 demoCompare wrongBody [demoUser]) = LoginInvalid
   \<and> (\<exists>u'. findOneByEmail (snd (login demoEnv 1000 demoCompare wrongBody [demoUser]))
               ''ann@x.com'' = Some u'
          \<and> loginAttempts u' = 1 \<and> lockUntil u' = None)
   \<and> \<not> isLocked lockedUser 7205000 \<and> demoCompare ''secret1'' (password lockedUser)
   \<and> JWT_SECRET demoEnv \<noteq> None
   \<and> loginStatus (fst (login demoEnv 7205000 demoCompare demoLoginBody [lockedUser])) = 200
   \<and> (\<exists>u'. findOneByEmail (snd (login demoEnv 7205000 demoCompare demoLoginBody [lockedUser]))
               ''ann@x.com'' = Some u'
          \<and> loginAttempts u' = 0 \<and> lockUntil u' = None)
   \<and> list_all (\<lambda>(t, b). wrongPassword demoCompare ''ann@x.com'' demoUser b) fourFailures
   \<and> length fourFailures = 4
   \<and> findOneByEmail (loginAll demoEnv demoCompare (fourFailures @ [(5000, wrongBody)]) [demoUser])
        ''ann@x.com'' = Some lockedUser"
proof -
  have fl: "findOneByEmail [lockedUser] ''ann@x.com'' = Some lockedUser" by code_simp
  have al: "isActive lockedUser" by code_simp
  have fd: "findOneByEmail [demoUser] ''ann@x.com'' = Some demoUser" by code_simp
  have ad: "isActive demoUser" by code_simp
  have b1: "body_email demoLoginBody = Some ''ann@x.com''"
    and b2: "body_password demoLoginBody = Some ''secret1''"
    by (simp_all add: demoLoginBody_def)
  have w1: "body_email wrongBody = Some ''ann@x.com''"
    and w2: "body_password wrongBody = Some ''guess''"
    by (simp_all add: wrongBody_def)
  have ne: "''ann@x.com'' \<noteq> []" "''secret1'' \<noteq> []" "''guess'' \<noteq> []" by simp_all
  have lk: "isLocked lockedUser 6000" by code_simp
  have mins: "lockTimeRemaining lockedUser 6000 = 120" by code_simp
  have nl: "\<not> isLocked demoUser 1000" by code_simp
  have nm: "\<not> demoCompare ''guess'' (password demoUser)" by code_simp
  have ex: "\<not> (case lockUntil demoUser of None \<Rightarrow> False | Some l \<Rightarrow> l < 1000)" by code_simp
  have at: "loginAttempts demoUser = 0" "lockUntil demoUser = None"
    by (simp_all add: demoUser_def)
  have un: "\<not> isLocked lockedUser 7205000" by code_simp
  have ma: "demoCompare ''secret1'' (password lockedUser)" by code_simp
  have sk: "JWT_SECRET demoEnv \<noteq> None" by (simp add: demoEnv_def)
  have wr: "list_all (\<lambda>(t, b). wrongPassword demoCompare ''ann@x.com'' demoUser b) fourFailures"
    by code_simp
  have w5: "wrongPassword demoCompare ''ann@x.com'' demoUser wrongBody" by code_simp
  have ln: "length fourFailures = 4" by (simp add: fourFailures_def)
  have lu: "demoUser\<lparr>loginAttempts := 5, lockUntil := Some (5000 + 2 * 60 * 60 * 1000)\<rparr> = lockedUser"
    by (simp add: lockedUser_def)
  note locked = login_lockout [where e = demoEnv and compare = demoCompare and now = 6000,
      OF fl al b1 b2 ne(1,2)]
  note unlocked = login_lockout [where e = demoEnv and compare = demoCompare and now = 7205000,
      OF fl al b1 b2 ne(1,2)]
  note fresh = login_lockout [where e = demoEnv and compare = demoCompare and now = 1000,
      OF fd ad w1 w2 ne(1,3)]
  from locked lk have
    "login demoEnv 6000 demoCompare demoLoginBody [lockedUser]
       = (LoginLocked (lockTimeRemaining lockedUser 6000), [lockedUser])"
    by blast
  then have c1: "login demoEnv 6000 demoCompare demoLoginBody [lockedUser]
       = (LoginLocked 120, [lockedUser])"
    by (simp only: mins)
  from fresh nl nm have c2: "fst (login demoEnv 1000 demoCompare wrongBody [demoUser]) = LoginInvalid"
    by blast
  from fresh nl nm have
    "\<exists>u'. findOneByEmail (snd (login demoEnv 1000 demoCompare wrongBody [demoUser]))
               ''ann@x.com'' = Some u'
          \<and> (if (case lockUntil demoUser of None \<Rightarrow> False | Some l \<Rightarrow> l < 1000)
              then loginAttempts u' = 1 \<and> lockUntil u' = None
              else loginAttempts u' = loginAttempts demoUser + 1
                 \<and> lockUntil u' = (if loginAttempts demoUser + 1 \<ge> 5
                                    then Some (1000 + 2 * 60 * 60 * 1000)
                                    else lockUntil demoUser))"
    by blast
  then have c3: "\<exists>u'. findOneByEmail (snd (login demoEnv 1000 demoCompare wrongBody [demoUser]))
               ''ann@x.com'' = Some u'
          \<and> loginAttempts u' = 1 \<and> lockUntil u' = None"
    using ex at by simp
  from unlocked un ma sk have
    c4: "loginStatus (fst (login demoEnv 7205000 demoCompare demoLoginBody [lockedUser])) = 200"
    by blast
  from unlocked un ma sk have
    c5: "\<exists>u'. findOneByEmail (snd (login demoEnv 7205000 demoCompare demoLoginBody [lockedUser]))
               ''ann@x.com'' = Some u'
          \<and> loginAttempts u' = 0 \<and> lockUntil u' = None"
    by blast
  have
    "\<forall>(reqs :: (int \<times> login_body) list) body5 t5.
         loginAttempts demoUser = 0 \<and> lockUntil demoUser = None
         \<and> list_all (\<lambda>(t, b). wrongPassword demoCompare ''ann@x.com'' demoUser b) reqs
         \<and> length reqs = 4
         \<and> wrongPassword demoCompare ''ann@x.com'' demoUser body5 \<longrightarrow>
         findOneByEmail (loginAll demoEnv demoCompare (reqs @ [(t5, body5)]) [demoUser])
           ''ann@x.com''
           = Some (demoUser\<lparr>loginAttempts := 5, lockUntil := Some (t5 + 2 * 60 * 60 * 1000)\<rparr>)"
    by (rule fresh [THEN conjunct2, THEN conjunct2, THEN conjunct2])
  then have
    "findOneByEmail (loginAll demoEnv demoCompare (fourFailures @ [(5000, wrongBody)]) [demoUser])
        ''ann@x.com''
      = Some (demoUser\<lparr>loginAttempts := 5, lockUntil := Some (5000 + 2 * 60 * 60 * 1000)\<rparr>)"
    using at wr ln w5 by blast
  then have c6:
    "findOneByEmail (loginAll demoEnv demoCompare (fourFailures @ [(5000, wrongBody)]) [demoUser])
        ''ann@x.com'' = Some lockedUser"
    by (simp only: lu)
  from fl al lk c1 nl nm c2 c3 un ma sk c4 c5 wr ln c6 show ?thesis by (intro conjI)
qed

section \<open>Properties of token refresh\<close>

text \<open>
  C3. jsonwebtoken stamps a token with the clock in whole seconds and signs
  deterministically, so \<open>generateRefreshToken\<close> called twice for one user within one second
  returns one and the same token. After a login at 900000 ms, a refresh at 900400 ms
  issues as its new refresh token the very token that was presented, the stored digest
  stays what it was, and presenting that token again at 900800 ms succeeds with status 200.
\<close>

theorem refresh_token_reusable_within_same_second:
  "login demoEnv 900000 demoCompare demoLoginBody [demoUser]
     = (LoginOk demoAccessToken (Some demoRefreshToken) demoLoginUser, [loggedInUser])
   \<and> refresh demoEnv 900400 (Some demoRefreshToken) None [loggedInUser]
     = (RefreshOk demoAccessToken demoRefreshToken, [rotatedUser])
   \<and> refresh demoEnv 900800 (Some demoRefreshToken) None [rotatedUser]
     = (RefreshOk demoAccessToken demoRefreshToken,
        [rotatedUser\<lparr>refreshTokenExpiry := Some 605700800\<rparr>])
   \<and> refreshStatus (fst (refresh demoEnv 900800 (Some demoRefreshToken) None [rotatedUser])) = 200"
  by code_simp

text \<open>
  Whenever the token a refresh issues differs from the one presented (the refresh runs in
  a later second than the one the presented token was issued in), presenting the old token
  again is answered 401 and changes nothing.
\<close>

lemma findRefreshUser_Some:
  "findRefreshUser db i h now = Some u \<Longrightarrow>
     u \<in> set db \<and> uid u = i \<and> refreshToken u = Some h
     \<and> (\<exists>x. refreshTokenExpiry u = Some x \<and> now < x)"
  unfolding findRefreshUser_def find_Some_iff
  by (auto split: option.splits)

lemma updateById_mem:
  "d' \<in> set (updateById i f db) \<Longrightarrow> uid d' = i \<Longrightarrow> (\<And>d. uid (f d) = uid d) \<Longrightarrow>
     \<exists>d \<in> set db. d' = f d"
  by (auto simp: updateById_def split: if_splits)

lemma findRefreshUser_after_rotation:
  assumes "h \<noteq> Sha256 r"
  shows "findRefreshUser
           (updateById i (\<lambda>d. d\<lparr>refreshToken := Some (Sha256 r), refreshTokenExpiry := x\<rparr>) db)
           i h now' = None"
proof -
  let ?f = "\<lambda>d. d\<lparr>refreshToken := Some (Sha256 r), refreshTokenExpiry := x\<rparr>"
  have "refreshToken d' \<noteq> Some h" if "d' \<in> set (updateById i ?f db)" "uid d' = i" for d'
  proof -
    from updateById_mem [OF that] obtain d where "d' = ?f d" by auto
    with assms show ?thesis by auto
  qed
  then show ?thesis
    unfolding findRefreshUser_def find_None_iff by blast
qed

lemma jwt_verify_Inr_any:
  "jwt_verify tok s now = Inr p \<Longrightarrow> \<exists>k. s = Some k \<and> tok = Jwt p k"
  by (auto simp: jwt_verify_def split: option.splits token.splits if_splits)


lemma refresh_Some_token:
  assumes "jwt_verify tok (refreshSecret e) now = Inr p"
  shows "refresh e now (Some tok) None db =
     (case findRefreshUser db (tok_id p) (Sha256 tok) now of
        None \<Rightarrow> (RefreshNoMatch, db)
      | Some u \<Rightarrow>
          (case (generateAccessToken e now (uid u), generateRefreshToken e now (uid u)) of
             (Some newAccessToken, Some newRefreshToken) \<Rightarrow>
               (RefreshOk newAccessToken newRefreshToken,
                updateById (uid u)
                  (\<lambda>d. d\<lparr>refreshToken := Some (Sha256 newRefreshToken),
                         refreshTokenExpiry := Some (now + 7 * 24 * 60 * 60 * 1000)\<rparr>) db)
           | _ \<Rightarrow> (RefreshServerError, db)))"
proof -
  from jwt_verify_Inr_any [OF assms] obtain k where "refreshSecret e = Some k" and "tok = Jwt p k"
    by blast
  with assms show ?thesis by (simp add: refresh_def)
qed

lemma refresh_failed_verify:
  assumes "jwt_verify tok (refreshSecret e) now = Inl err"
  shows "refreshStatus (fst (refresh e now (Some tok) None db)) = 401
       \<and> snd (refresh e now (Some tok) None db) = db"
proof (cases "givenToken (Some tok)")
  case None
  then show ?thesis by (simp add: refresh_def)
next
  case (Some t)
  then have "t = tok" by (cases tok) (auto split: if_splits)
  with Some assms show ?thesis by (simp add: refresh_def)
qed


lemma refresh_old_token_rejected:
  assumes ok: "refresh e now (Some tok) None db = (RefreshOk a r, db')" and new: "r \<noteq> tok"
  shows "refreshStatus (fst (refresh e now' (Some tok) None db')) = 401
         \<and> snd (refresh e now' (Some tok) None db') = db'"
proof (cases "jwt_verify tok (refreshSecret e) now'")
  case (Inl err)
  then show ?thesis by (rule refresh_failed_verify)
next
  case (Inr p')
  from jwt_verify_Inr_any [OF Inr] obtain k where
    k: "refreshSecret e = Some k" and t: "tok = Jwt p' k" by blast
  have v: "jwt_verify tok (refreshSecret e) now = Inr p'"
  proof (cases "jwt_verify tok (refreshSecret e) now")
    case (Inl err)
    from refresh_failed_verify [OF this, of db] ok show ?thesis by simp
  next
    case (Inr p)
    from jwt_verify_Inr_any [OF this] t have "p = p'" by auto
    with Inr show ?thesis by simp
  qed
  have "\<exists>u. findRefreshUser db (tok_id p') (Sha256 tok) now = Some u
           \<and> generateRefreshToken e now (uid u) = Some r
           \<and> db' = updateById (uid u)
                  (\<lambda>d. d\<lparr>refreshToken := Some (Sha256 r),
                         refreshTokenExpiry := Some (now + 7 * 24 * 60 * 60 * 1000)\<rparr>) db"
    using ok unfolding refresh_Some_token [OF v]
    by (simp split: option.splits prod.splits)
  then obtain u where
    u: "findRefreshUser db (tok_id p') (Sha256 tok) now = Some u"
    and d: "db' = updateById (uid u)
                  (\<lambda>d. d\<lparr>refreshToken := Some (Sha256 r),
                         refreshTokenExpiry := Some (now + 7 * 24 * 60 * 60 * 1000)\<rparr>) db"
    by blast
  from findRefreshUser_Some [OF u] have i: "uid u = tok_id p'" by simp
  have none: "findRefreshUser db' (tok_id p') (Sha256 tok) now' = None"
    unfolding d i by (rule findRefreshUser_after_rotation) (use new in simp)
  show ?thesis
    unfolding refresh_Some_token [OF Inr] none by simp
qed

section \<open>Properties of the price engine and the broadcast\<close>

lemma generatePrice_ge_1: "1 \<le> generatePrice r p"
  by (simp add: generatePrice_def Let_def)

lemma tickerOk_iff:
  "tickerOk st t \<longleftrightarrow>
     (\<exists>p h. stockPrices st t = Some p \<and> priceHistory st t = Some h
            \<and> 1 \<le> p \<and> 1 \<le> length h \<and> length h \<le> 50)"
  by (auto simp: tickerOk_def split: option.splits)

lemma stateOk_seed: "stateOk seedState"
  by (simp add: stateOk_def SUPPORTED_STOCKS_def tickerOk_def seedState_def basePrices_def)

lemma updateTicker_ok:
  assumes "tickerOk st t"
  shows "\<exists>st'. updateTicker rnd st t = Some st' \<and> tickerOk st' t
           \<and> (\<forall>t'. t' \<noteq> t \<longrightarrow> stockPrices st' t' = stockPrices st t'
                                \<and> priceHistory st' t' = priceHistory st t')"
proof -
  from assms obtain p h where
    ph: "stockPrices st t = Some p" "priceHistory st t = Some h" "1 \<le> length h" "length h \<le> 50"
    by (auto simp: tickerOk_iff)
  then show ?thesis
    using generatePrice_ge_1 [of "rnd t" p]
    by (auto simp: updateTicker_def tickerOk_def Let_def)
qed

lemma tickerOk_cong:
  "stockPrices st' t = stockPrices st t \<Longrightarrow> priceHistory st' t = priceHistory st t \<Longrightarrow>
     tickerOk st' t = tickerOk st t"
  by (simp add: tickerOk_def)

lemma updateAll_ok:
  assumes "\<forall>t \<in> S. tickerOk st t" "set ts \<subseteq> S"
  shows "\<exists>st'. updateAll rnd st ts = Some st' \<and> (\<forall>t \<in> S. tickerOk st' t)"
  using assms
proof (induction ts arbitrary: st)
  case Nil
  then show ?case by simp
next
  case (Cons t ts)
  then have "tickerOk st t" by simp
  from updateTicker_ok [OF this, of rnd] obtain st1 where
    s: "updateTicker rnd st t = Some st1" "tickerOk st1 t"
    and o: "\<forall>t'. t' \<noteq> t \<longrightarrow> stockPrices st1 t' = stockPrices st t'
                                \<and> priceHistory st1 t' = priceHistory st t'"
    by blast
  have "\<forall>t' \<in> S. tickerOk st1 t'"
  proof
    fix t' assume "t' \<in> S"
    show "tickerOk st1 t'"
    proof (cases "t' = t")
      case True
      with s show ?thesis by simp
    next
      case False
      with o have "tickerOk st1 t' = tickerOk st t'" by (intro tickerOk_cong) simp_all
      with Cons.prems \<open>t' \<in> S\<close> show ?thesis by simp
    qed
  qed
  from Cons.IH [OF this] Cons.prems(2) s show ?case by simp
qed

lemma basePrices_all: "list_all (\<lambda>t. basePrices t \<noteq> None) SUPPORTED_STOCKS"
  by code_simp

lemma basePrices_supported: "t \<in> set SUPPORTED_STOCKS \<Longrightarrow> \<exists>b. basePrices t = Some b"
  using basePrices_all by (auto simp: list_all_iff)

lemma stockEntry_ok:
  "tickerOk st t \<Longrightarrow> t \<in> set SUPPORTED_STOCKS \<Longrightarrow> \<exists>e. stockEntry st t = Some e"
proof -
  assume "tickerOk st t" and "t \<in> set SUPPORTED_STOCKS"
  then obtain p h where "stockPrices st t = Some p" "priceHistory st t = Some h"
    by (auto simp: tickerOk_iff)
  moreover from \<open>t \<in> set SUPPORTED_STOCKS\<close> obtain b where "basePrices t = Some b"
    using basePrices_supported by blast
  ultimately show ?thesis by (simp add: stockEntry_def calculateChange_def)
qed

lemma collectStockData_ok:
  "\<forall>t \<in> set ts. \<exists>e. stockEntry st t = Some e \<Longrightarrow> \<exists>d. collectStockData st ts = Some d"
  by (induction ts) auto

lemma collectStockData_map_of:
  "collectStockData st ts = Some d \<Longrightarrow> t \<in> set ts \<Longrightarrow> map_of d t = stockEntry st t"
  by (induction ts arbitrary: d) (auto split: option.splits)

lemma stateOk_iff: "stateOk st \<longleftrightarrow> (\<forall>t \<in> set SUPPORTED_STOCKS. tickerOk st t)"
  by (simp add: stateOk_def list_all_iff)

lemma updatePrices_ok:
  assumes "stateOk st"
  shows "\<exists>st' d. updatePrices rnd ts st = Some (st', \<lparr>stocks = d, timestamp = ts\<rparr>)
            \<and> stateOk st' \<and> getFullStockData st' = Some d"
proof -
  from updateAll_ok [of "set SUPPORTED_STOCKS" st SUPPORTED_STOCKS rnd] assms
  obtain st' where u: "updateAll rnd st SUPPORTED_STOCKS = Some st'" and ok: "stateOk st'"
    by (auto simp: stateOk_iff)
  from ok have "\<forall>t \<in> set SUPPORTED_STOCKS. \<exists>e. stockEntry st' t = Some e"
    by (auto simp: stateOk_iff intro: stockEntry_ok)
  from collectStockData_ok [OF this] obtain d where "getFullStockData st' = Some d"
    by (auto simp: getFullStockData_def)
  with u ok show ?thesis by (simp add: updatePrices_def)
qed

lemma runTicks_ok:
  "stateOk st \<Longrightarrow> \<exists>st'. runTicks ticks st = Some st' \<and> stateOk st'"
proof (induction ticks arbitrary: st)
  case Nil
  then show ?case by simp
next
  case (Cons a ticks)
  obtain rnd ts where a: "a = (rnd, ts)" by (cases a)
  from updatePrices_ok [OF Cons.prems, of rnd ts] obtain st1 d where
    "updatePrices rnd ts st = Some (st1, \<lparr>stocks = d, timestamp = ts\<rparr>)" "stateOk st1"
    by blast
  with Cons.IH [of st1] a show ?case by simp
qed

lemma updateTicker_evicts_oldest:
  assumes "stockPrices st t = Some p" "priceHistory st t = Some h" "length h = 50"
  shows "\<exists>st'. updateTicker rnd st t = Some st'
           \<and> stockPrices st' t = Some (generatePrice (rnd t) p)
           \<and> priceHistory st' t = Some (tl h @ [generatePrice (rnd t) p])"
  using assms by (cases h) (auto simp: updateTicker_def Let_def)

text \<open>
  C2. From the seed state, any number of ticks with any random draws runs to the end, and
  afterwards every supported ticker has a current price of at least 1 and a history of at
  most 50 entries. A tick on a history of 50 entries drops the oldest and appends the new
  price.
\<close>

theorem ticks_keep_floor_and_cap:
  assumes "t \<in> set SUPPORTED_STOCKS"
  shows "(\<exists>st p h. runTicks ticks seedState = Some st
           \<and> stockPrices st t = Some p \<and> priceHistory st t = Some h
           \<and> 1 \<le> p \<and> length h \<le> 50)
       \<and> (\<forall>rnd st p h. stockPrices st t = Some p \<and> priceHistory st t = Some h
               \<and> length h = 50 \<longrightarrow>
             (\<exists>st'. updateTicker rnd st t = Some st'
                \<and> stockPrices st' t = Some (generatePrice (rnd t) p)
                \<and> priceHistory st' t = Some (tl h @ [generatePrice (rnd t) p])))"
proof
  from runTicks_ok [OF stateOk_seed, of ticks] obtain st where
    "runTicks ticks seedState = Some st" "stateOk st" by blast
  with assms show "\<exists>st p h. runTicks ticks seedState = Some st
           \<and> stockPrices st t = Some p \<and> priceHistory st t = Some h
           \<and> 1 \<le> p \<and> length h \<le> 50"
    by (auto simp: stateOk_iff tickerOk_iff)
next
  show "\<forall>rnd st p h. stockPrices st t = Some p \<and> priceHistory st t = Some h
               \<and> length h = 50 \<longrightarrow>
             (\<exists>st'. updateTicker rnd st t = Some st'
                \<and> stockPrices st' t = Some (generatePrice (rnd t) p)
                \<and> priceHistory st' t = Some (tl h @ [generatePrice (rnd t) p]))"
    using updateTicker_evicts_oldest by blast
qed

theorem ticks_keep_floor_and_cap_witness:
  "''AAPL'' \<in> set SUPPORTED_STOCKS
   \<and> (\<exists>st p h. runTicks demoTicks seedState = Some st
           \<and> stockPrices st ''AAPL'' = Some p \<and> priceHistory st ''AAPL'' = Some h
           \<and> 1 \<le> p \<and> length h \<le> 50)
   \<and> readTicker (runTicks demoTicks seedState) ''AAPL''
       = Some (4823 / 25, [9671 / 50, 9571 / 50, 4823 / 25])
   \<and> stockPrices fullHistoryState ''AAPL'' = Some (9671 / 50)
   \<and> priceHistory fullHistoryState ''AAPL'' = Some (5 # replicate 49 7)
   \<and> length (5 # replicate 49 (7::rat)) = 50
   \<and> (\<exists>st'. updateTicker demoRnd fullHistoryState ''AAPL'' = Some st'
          \<and> stockPrices st' ''AAPL'' = Some (generatePrice (demoRnd ''AAPL'') (9671 / 50))
          \<and> priceHistory st' ''AAPL''
              = Some (tl (5 # replicate 49 7) @ [generatePrice (demoRnd ''AAPL'') (9671 / 50)]))"
proof -
  have h: "''AAPL'' \<in> set SUPPORTED_STOCKS" by (simp add: SUPPORTED_STOCKS_def)
  have v: "readTicker (runTicks demoTicks seedState) ''AAPL''
       = Some (4823 / 25, [9671 / 50, 9571 / 50, 4823 / 25])"
    by code_simp
  have p: "stockPrices fullHistoryState ''AAPL'' = Some (9671 / 50)"
    by (simp add: fullHistoryState_def basePrices_def)
  have q: "priceHistory fullHistoryState ''AAPL'' = Some (5 # replicate 49 7)"
    by (simp add: fullHistoryState_def)
  have l: "length (5 # replicate 49 (7::rat)) = 50" by simp
  note t = ticks_keep_floor_and_cap [OF h, of demoTicks]
  from t have a: "\<exists>st p h. runTicks demoTicks seedState = Some st
           \<and> stockPrices st ''AAPL'' = Some p \<and> priceHistory st ''AAPL'' = Some h
           \<and> 1 \<le> p \<and> length h \<le> 50"
    by (rule conjunct1)
  from t p q l have b: "\<exists>st'. updateTicker demoRnd fullHistoryState ''AAPL'' = Some st'
          \<and> stockPrices st' ''AAPL'' = Some (generatePrice (demoRnd ''AAPL'') (9671 / 50))
          \<and> priceHistory st' ''AAPL''
              = Some (tl (5 # replicate 49 7) @ [generatePrice (demoRnd ''AAPL'') (9671 / 50)])"
    by blast
  from h a v p q l b show ?thesis by (intro conjI)
qed

lemma emitTickerUpdates_ok:
  "\<forall>t \<in> set ts'. \<exists>e. map_of (stocks pd) t = Some e \<Longrightarrow> \<exists>evs. emitTickerUpdates pd ts' = Some evs"
  by (induction ts') auto

lemma emitTickerUpdates_sound:
  "emitTickerUpdates pd ts' = Some evs \<Longrightarrow> (tg, ev) \<in> set evs \<Longrightarrow>
     \<exists>t e. t \<in> set ts' \<and> map_of (stocks pd) t = Some e \<and> tg = Room (getTickerRoom t)
           \<and> ev = PriceUpdate t (price e) (change e) (history e) (timestamp pd)"
proof (induction ts' arbitrary: evs)
  case Nil
  then show ?case by simp
next
  case (Cons a ts')
  from Cons.prems(1) obtain x evs' where
    x: "map_of (stocks pd) a = Some x" and r: "emitTickerUpdates pd ts' = Some evs'"
    and v: "evs = (Room (getTickerRoom a),
                   PriceUpdate a (price x) (change x) (history x) (timestamp pd)) # evs'"
    by (auto split: option.splits)
  from Cons.prems(2) v consider
    "tg = Room (getTickerRoom a)"
      "ev = PriceUpdate a (price x) (change x) (history x) (timestamp pd)"
    | "(tg, ev) \<in> set evs'"
    by auto
  then show ?case
  proof cases
    case 1
    with x show ?thesis by (intro exI [of _ a] exI [of _ x]) simp
  next
    case 2
    from Cons.IH [OF r 2] obtain t e where
      "t \<in> set ts'" "map_of (stocks pd) t = Some e" "tg = Room (getTickerRoom t)"
      "ev = PriceUpdate t (price e) (change e) (history e) (timestamp pd)"
      by blast
    then show ?thesis by (intro exI [of _ t] exI [of _ e]) simp
  qed
qed

lemma emitTickerUpdates_complete:
  "emitTickerUpdates pd ts' = Some evs \<Longrightarrow> t \<in> set ts' \<Longrightarrow>
     \<exists>e. map_of (stocks pd) t = Some e
         \<and> (Room (getTickerRoom t),
             PriceUpdate t (price e) (change e) (history e) (timestamp pd)) \<in> set evs"
  by (induction ts' arbitrary: evs) (auto split: option.splits)

lemma broadcastTick_ok:
  assumes "stateOk st"
  shows "\<exists>st' d evs. broadcastTick rnd ts st = Some (st', (Everyone, AllPricesUpdate d ts) # evs)
           \<and> updatePrices rnd ts st = Some (st', \<lparr>stocks = d, timestamp = ts\<rparr>)
           \<and> emitTickerUpdates \<lparr>stocks = d, timestamp = ts\<rparr> SUPPORTED_STOCKS = Some evs
           \<and> (\<forall>t \<in> set SUPPORTED_STOCKS. map_of d t = stockEntry st' t)"
proof -
  from updatePrices_ok [OF assms, of rnd ts] obtain st' d where
    u: "updatePrices rnd ts st = Some (st', \<lparr>stocks = d, timestamp = ts\<rparr>)"
    and ok: "stateOk st'" and g: "getFullStockData st' = Some d"
    by blast
  from g have m: "\<forall>t \<in> set SUPPORTED_STOCKS. map_of d t = stockEntry st' t"
    by (auto simp: getFullStockData_def dest: collectStockData_map_of)
  from ok have "\<forall>t \<in> set SUPPORTED_STOCKS. \<exists>e. stockEntry st' t = Some e"
    by (auto simp: stateOk_iff intro: stockEntry_ok)
  with m have "\<forall>t \<in> set SUPPORTED_STOCKS. \<exists>e. map_of (stocks \<lparr>stocks = d, timestamp = ts\<rparr>) t = Some e"
    by simp
  from emitTickerUpdates_ok [OF this] obtain evs where
    e: "emitTickerUpdates \<lparr>stocks = d, timestamp = ts\<rparr> SUPPORTED_STOCKS = Some evs"
    by blast
  from u e m show ?thesis by (simp add: broadcastTick_def)
qed

lemma received_Cons_Everyone:
  "set (received rooms ((Everyone, ev) # evs)) = insert ev (set (received rooms evs))"
  by (simp add: received_def)

lemma received_subset: "ev \<in> set (received rooms evs) \<Longrightarrow> \<exists>tg. (tg, ev) \<in> set evs"
  by (auto simp: received_def)

text \<open>
  C1. In every state the ticks reach from the seed state, one scheduler period succeeds and
  emits the all-tickers event built from the snapshot \<open>updatePrices\<close> returned, followed by
  one \<open>price_update\<close> per supported ticker, sent to that ticker's room, whose price, change,
  history and time stamp are those of the ticker's entry in that same snapshot (the entry
  read from the state after the tick). So whatever rooms two connections are in, a
  \<open>price_update\<close> one receives and the \<open>all_prices_update\<close> the other receives in this tick
  agree on the ticker's values and on the time stamp.
\<close>

theorem tick_events_share_one_snapshot:
  assumes reach: "runTicks ticks seedState = Some st"
  shows "\<exists>st' d evs.
           broadcastTick rnd ts st = Some (st', (Everyone, AllPricesUpdate d ts) # evs)
         \<and> updatePrices rnd ts st = Some (st', \<lparr>stocks = d, timestamp = ts\<rparr>)
         \<and> (\<forall>t \<in> set SUPPORTED_STOCKS.
               \<exists>e. map_of d t = Some e \<and> stockEntry st' t = Some e
                 \<and> (Room (getTickerRoom t), PriceUpdate t (price e) (change e) (history e) ts)
                       \<in> set evs)
         \<and> (\<forall>tg ev. (tg, ev) \<in> set evs \<longrightarrow>
               (\<exists>t e. t \<in> set SUPPORTED_STOCKS \<and> map_of d t = Some e
                  \<and> tg = Room (getTickerRoom t)
                  \<and> ev = PriceUpdate t (price e) (change e) (history e) ts))
         \<and> (\<forall>rooms1 rooms2 t p c h ts1 d2 ts2.
               PriceUpdate t p c h ts1
                 \<in> set (received rooms1 ((Everyone, AllPricesUpdate d ts) # evs))
             \<and> AllPricesUpdate d2 ts2
                 \<in> set (received rooms2 ((Everyone, AllPricesUpdate d ts) # evs))
             \<longrightarrow> map_of d2 t = Some \<lparr>price = p, change = c, history = h\<rparr> \<and> ts1 = ts2)"
proof -
  from runTicks_ok [OF stateOk_seed, of ticks] reach have ok: "stateOk st" by simp
  from broadcastTick_ok [OF ok, of rnd ts] obtain st' d evs where
    b: "broadcastTick rnd ts st = Some (st', (Everyone, AllPricesUpdate d ts) # evs)"
    and u: "updatePrices rnd ts st = Some (st', \<lparr>stocks = d, timestamp = ts\<rparr>)"
    and e: "emitTickerUpdates \<lparr>stocks = d, timestamp = ts\<rparr> SUPPORTED_STOCKS = Some evs"
    and m: "\<forall>t \<in> set SUPPORTED_STOCKS. map_of d t = stockEntry st' t"
    by blast
  have complete: "\<forall>t \<in> set SUPPORTED_STOCKS.
               \<exists>e. map_of d t = Some e \<and> stockEntry st' t = Some e
                 \<and> (Room (getTickerRoom t), PriceUpdate t (price e) (change e) (history e) ts)
                       \<in> set evs"
    using emitTickerUpdates_complete [OF e] m by fastforce
  have sound: "\<forall>tg ev. (tg, ev) \<in> set evs \<longrightarrow>
               (\<exists>t e. t \<in> set SUPPORTED_STOCKS \<and> map_of d t = Some e
                  \<and> tg = Room (getTickerRoom t)
                  \<and> ev = PriceUpdate t (price e) (change e) (history e) ts)"
    using emitTickerUpdates_sound [OF e] by fastforce
  have same: "map_of d2 t = Some \<lparr>price = p, change = c, history = h\<rparr> \<and> ts1 = ts2"
    if r1: "PriceUpdate t p c h ts1
                 \<in> set (received rooms1 ((Everyone, AllPricesUpdate d ts) # evs))"
    and r2: "AllPricesUpdate d2 ts2
                 \<in> set (received rooms2 ((Everyone, AllPricesUpdate d ts) # evs))"
    for rooms1 rooms2 t p c h ts1 d2 ts2
  proof -
    from r1 have "PriceUpdate t p c h ts1 \<in> set (received rooms1 evs)"
      by (simp add: received_Cons_Everyone)
    then obtain tg where "(tg, PriceUpdate t p c h ts1) \<in> set evs"
      using received_subset by blast
    with sound obtain e' where
      pe: "map_of d t = Some e'" "p = price e'" "c = change e'" "h = history e'" "ts1 = ts"
      by blast
    have "AllPricesUpdate d2 ts2 \<notin> set (received rooms2 evs)"
    proof
      assume "AllPricesUpdate d2 ts2 \<in> set (received rooms2 evs)"
      then obtain tg' where "(tg', AllPricesUpdate d2 ts2) \<in> set evs"
        using received_subset by blast
      with sound show False by blast
    qed
    with r2 have "d2 = d" "ts2 = ts" by (simp_all add: received_Cons_Everyone)
    with pe show ?thesis by simp
  qed
  from b u complete sound same show ?thesis by blast
qed

theorem tick_events_share_one_snapshot_witness:
  "runTicks [] seedState = Some seedState
   \<and> map_option snd (broadcastTick demoRnd demoStamp seedState)
       = Some ((Everyone, AllPricesUpdate demoStocks demoStamp) # demoTickerEvents)
   \<and> demoPriceUpdate
       \<in> set (received [''ticker:AAPL'']
                 ((Everyone, AllPricesUpdate demoStocks demoStamp) # demoTickerEvents))
   \<and> AllPricesUpdate demoStocks demoStamp
       \<in> set (received [] ((Everyone, AllPricesUpdate demoStocks demoStamp) # demoTickerEvents))
   \<and> map_of demoStocks ''AAPL''
       = Some \<lparr>price = 4873 / 25, change = 39 / 50, history = [9671 / 50, 4873 / 25]\<rparr>"
proof -
  have h: "runTicks [] seedState = Some seedState" by simp
  have v: "map_option snd (broadcastTick demoRnd demoStamp seedState)
       = Some ((Everyone, AllPricesUpdate demoStocks demoStamp) # demoTickerEvents)"
    by code_simp
  have r1: "PriceUpdate ''AAPL'' (4873 / 25) (39 / 50) [9671 / 50, 4873 / 25] demoStamp
       \<in> set (received [''ticker:AAPL'']
                 ((Everyone, AllPricesUpdate demoStocks demoStamp) # demoTickerEvents))"
    by code_simp
  have r2: "AllPricesUpdate demoStocks demoStamp
       \<in> set (received [] ((Everyone, AllPricesUpdate demoStocks demoStamp) # demoTickerEvents))"
    by (simp add: received_def)
  from tick_events_share_one_snapshot [OF h, of demoRnd demoStamp] obtain st' d evs where
    b: "broadcastTick demoRnd demoStamp seedState
          = Some (st', (Everyone, AllPricesUpdate d demoStamp) # evs)"
    and same: "\<forall>rooms1 rooms2 t p c h ts1 d2 ts2.
               PriceUpdate t p c h ts1
                 \<in> set (received rooms1 ((Everyone, AllPricesUpdate d demoStamp) # evs))
             \<and> AllPricesUpdate d2 ts2
                 \<in> set (received rooms2 ((Everyone, AllPricesUpdate d demoStamp) # evs))
             \<longrightarrow> map_of d2 t = Some \<lparr>price = p, change = c, history = h\<rparr> \<and> ts1 = ts2"
    by blast
  from b v have d: "d = demoStocks" and e: "evs = demoTickerEvents" by simp_all
  from same r1 r2 have m: "map_of demoStocks ''AAPL''
       = Some \<lparr>price = 4873 / 25, change = 39 / 50, history = [9671 / 50, 4873 / 25]\<rparr>"
    unfolding d e by blast
  from h v r1 r2 m show ?thesis unfolding demoPriceUpdate_def by (intro conjI)
qed

end
